theory Spec2Isabelle
  imports Main
begin

chapter \<open>The model\<close>

section \<open>Python exceptions\<close>

text \<open>Every \<open>raise\<close> and every failing \<open>assert\<close> of the modelled functions is a value
  of this type; a function that can raise returns \<open>py_error + 'a\<close>.\<close>

datatype py_error =
    AssertionError
  | KeyError
  | ValueError
  | TypeError
  | NotImplementedError
  | IndexError
  | FileNotFoundError
  | ZeroDivisionError

section \<open>Change lists\<close>

text \<open>
  Modelled from the spec: \<open>datapipe.types.ChangeList\<close> is imported by
  \<open>compute.py\<close> and \<open>core_steps.py\<close> but its class is not among the sources.
  The spec describes it as an accumulator mapping a table name to an index frame, with
  \<open>append(name, idx)\<close> unioning the rows stored for a name, \<open>extend(other)\<close>
  and an emptiness test.  An index frame is a list of key tuples; the mapping is an
  association list in insertion order, as a Python dict is.
\<close>

type_synonym 'k IndexDF = "'k list"

type_synonym 'k ChangeList = "(string \<times> 'k IndexDF) list"

definition ChangeList_new :: "'k ChangeList" where
  "ChangeList_new = []"

fun union_rows :: "'k IndexDF \<Rightarrow> 'k IndexDF \<Rightarrow> 'k IndexDF" where
  "union_rows old idx = old @ filter (\<lambda>k. k \<notin> set old) (remdups idx)"

fun ChangeList_append :: "'k ChangeList \<Rightarrow> string \<Rightarrow> 'k IndexDF \<Rightarrow> 'k ChangeList" where
  "ChangeList_append [] name idx = [(name, idx)]"
| "ChangeList_append ((n, old) # rest) name idx =
     (if n = name then (n, union_rows old idx) # rest
      else (n, old) # ChangeList_append rest name idx)"

fun ChangeList_extend :: "'k ChangeList \<Rightarrow> 'k ChangeList \<Rightarrow> 'k ChangeList" where
  "ChangeList_extend cl [] = cl"
| "ChangeList_extend cl ((name, idx) # other) =
     ChangeList_extend (ChangeList_append cl name idx) other"

definition ChangeList_empty :: "'k ChangeList \<Rightarrow> bool" where
  "ChangeList_empty cl = (length cl = 0)"

section \<open>The pipeline driver (compute.py)\<close>

text \<open>
  A compute step is seen by the driver only through \<open>step.run_changelist(ds,
  current_changes, run_config)\<close>, which reads and writes the data store and either
  returns the changes it made or raises.  \<open>run_steps_changelist\<close> has no \<open>try\<close>
  around the call, and \<open>ComputeStep.run_changelist\<close> has none around
  \<open>get_change_list_process_ids\<close>, so an exception of a step escapes the driver.  The
  model takes a step as that state transformer: it returns the data store as the step
  left it and either the exception raised or the change list returned.  The data store
  is any type \<open>'ds\<close>.
\<close>

type_synonym ('ds, 'k) ComputeStep =
  "'ds \<Rightarrow> 'k ChangeList \<Rightarrow> 'ds \<times> (py_error + 'k ChangeList)"

text \<open>
  \<open>ComputeStep.run_changelist\<close> of a step whose class does not override
  \<open>get_change_list_process_ids\<close>, as \<open>DatatableTransformStep\<close>: the call in
  \<open>run_changelist\<close> reaches the method of the base class, which raises
  \<open>NotImplementedError\<close> before anything is written.
\<close>

definition run_changelist_base :: "('ds, 'k) ComputeStep" where
  "run_changelist_base ds change_list = (ds, Inl NotImplementedError)"

text \<open>The inner \<open>for step in steps\<close> loop of \<open>run_steps_changelist\<close>: every step
  is fed \<open>current_changes\<close>, and what it returns is accumulated in \<open>next_changes\<close>.
  The first exception ends the loop; what the earlier steps wrote stays written.\<close>

fun run_steps_pass ::
  "('ds, 'k) ComputeStep list \<Rightarrow> 'ds \<Rightarrow> 'k ChangeList \<Rightarrow> 'k ChangeList
     \<Rightarrow> 'ds \<times> (py_error + 'k ChangeList)"
where
  "run_steps_pass [] ds current_changes next_changes = (ds, Inr next_changes)"
| "run_steps_pass (step # steps) ds current_changes next_changes =
     (case step ds current_changes of
        (ds', Inl e) \<Rightarrow> (ds', Inl e)
      | (ds', Inr step_changes) \<Rightarrow>
          run_steps_pass steps ds' current_changes (ChangeList_extend next_changes step_changes))"

text \<open>
  The \<open>while not current_changes.empty() and iteration < 100\<close> loop.  The Python
  function returns nothing; the model returns what the loop ends with: the data store,
  the current change list, the iteration counter, and the exception that escaped, if
  one did.  An exception leaves \<open>current_changes\<close> and the counter as they were when
  the iteration began.
\<close>

function run_steps_changelist_loop ::
  "('ds, 'k) ComputeStep list \<Rightarrow> 'ds \<Rightarrow> 'k ChangeList \<Rightarrow> nat
     \<Rightarrow> 'ds \<times> 'k ChangeList \<times> nat \<times> py_error option"
where
  "run_steps_changelist_loop steps ds current_changes iteration =
     (if \<not> ChangeList_empty current_changes \<and> iteration < 100 then
        (case run_steps_pass steps ds current_changes ChangeList_new of
           (ds', Inl e) \<Rightarrow> (ds', current_changes, iteration, Some e)
         | (ds', Inr next_changes) \<Rightarrow>
             run_steps_changelist_loop steps ds' next_changes (iteration + 1))
      else (ds, current_changes, iteration, None))"
  by pat_completeness auto
termination
  by (relation "measure (\<lambda>(steps, ds, current_changes, iteration). 100 - iteration)") auto

declare run_steps_changelist_loop.simps [simp del]

definition run_steps_changelist ::
  "'ds \<Rightarrow> ('ds, 'k) ComputeStep list \<Rightarrow> 'k ChangeList
     \<Rightarrow> 'ds \<times> 'k ChangeList \<times> nat \<times> py_error option"
where
  "run_steps_changelist ds steps changelist = run_steps_changelist_loop steps ds changelist 0"

text \<open>
  One iteration of the loop body that no exception leaves, as a partial function on the
  pair of data store and current change list; \<open>changes_after steps k\<close> is the pair
  after \<open>k\<close> such iterations, if none of them raised.
\<close>

definition one_iteration ::
  "('ds, 'k) ComputeStep list \<Rightarrow> 'ds \<times> 'k ChangeList \<Rightarrow> ('ds \<times> 'k ChangeList) option"
where
  "one_iteration steps s =
     (case run_steps_pass steps (fst s) (snd s) ChangeList_new of
        (ds', Inl e) \<Rightarrow> None
      | (ds', Inr next_changes) \<Rightarrow> Some (ds', next_changes))"

fun changes_after ::
  "('ds, 'k) ComputeStep list \<Rightarrow> nat \<Rightarrow> 'ds \<times> 'k ChangeList \<Rightarrow> ('ds \<times> 'k ChangeList) option"
where
  "changes_after steps 0 s = Some s"
| "changes_after steps (Suc k) s =
     (case one_iteration steps s of
        None \<Rightarrow> None
      | Some s' \<Rightarrow> changes_after steps k s')"

section \<open>Transform keys of a batch transform step (core_steps.py)\<close>

text \<open>
  A primary-key column is an SQLAlchemy \<open>Column\<close>: the model keeps its name and its
  type.  Of a \<open>MetaTable\<close> (class in \<open>datapipe.metastore\<close>, not among the sources)
  \<open>compute_transform_schema\<close> reads only \<open>primary_schema\<close> and \<open>primary_keys\<close>, the
  names of the columns of the schema in order.
\<close>

datatype sa_type = SAString | SAInteger

record Column =
  col_name :: string
  col_type :: sa_type

type_synonym MetaSchema = "Column list"

definition schema_keys :: "MetaSchema \<Rightarrow> string list" where
  "schema_keys schema = map col_name schema"

text \<open>The dict comprehension \<open>{col.name: col for col in ...}\<close>: a later column
  replaces an earlier one of the same name.\<close>

definition all_keys_dict :: "MetaSchema list \<Rightarrow> string \<rightharpoonup> Column" where
  "all_keys_dict schemas = map_of (rev (map (\<lambda>c. (col_name c, c)) (concat schemas)))"

text \<open>\<open>[all_keys[k] for k in keys]\<close>, raising \<open>KeyError\<close> at a missing name.\<close>

fun lookup_all :: "(string \<rightharpoonup> Column) \<Rightarrow> string list \<Rightarrow> py_error + Column list" where
  "lookup_all d [] = Inr []"
| "lookup_all d (k # ks) =
     (case d k of
        None \<Rightarrow> Inl KeyError
      | Some c \<Rightarrow> (case lookup_all d ks of Inl e \<Rightarrow> Inl e | Inr cs \<Rightarrow> Inr (c # cs)))"

text \<open>
  \<open>set.intersection(*[set(t.primary_keys) for t in tables])\<close>.  With no argument the
  call raises \<open>TypeError\<close>.  A Python set has no specified iteration order; the model
  lists the intersection in the order of the first table's keys, without repetitions,
  and the properties below speak of the set of the result only.
\<close>

fun set_intersection :: "string list list \<Rightarrow> py_error + string list" where
  "set_intersection [] = Inl TypeError"
| "set_intersection (ks # rest) =
     Inr (remdups (filter (\<lambda>k. list_all (\<lambda>other. k \<in> set other) rest) ks))"

definition compute_transform_schema ::
  "MetaSchema list \<Rightarrow> MetaSchema list \<Rightarrow> string list option
     \<Rightarrow> py_error + (string list \<times> MetaSchema)"
where
  "compute_transform_schema input_mts output_mts transform_keys =
     (let all_keys = all_keys_dict (input_mts @ output_mts) in
      case transform_keys of
        Some tk \<Rightarrow>
          (case lookup_all all_keys tk of Inl e \<Rightarrow> Inl e | Inr cols \<Rightarrow> Inr (tk, cols))
      | None \<Rightarrow>
          if \<not> length input_mts > 0 then Inl AssertionError
          else
            (case set_intersection (map schema_keys input_mts) of
               Inl e \<Rightarrow> Inl e
             | Inr inp_p_keys \<Rightarrow>
                 if \<not> length inp_p_keys > 0 then Inl AssertionError
                 else if length output_mts = 0 then
                   (case lookup_all all_keys inp_p_keys of
                      Inl e \<Rightarrow> Inl e
                    | Inr cols \<Rightarrow> Inr (inp_p_keys, cols))
                 else
                   (case set_intersection (map schema_keys output_mts) of
                      Inl e \<Rightarrow> Inl e
                    | Inr out_p_keys \<Rightarrow>
                        if \<not> length out_p_keys > 0 then Inl AssertionError
                        else
                          (case set_intersection [inp_p_keys, out_p_keys] of
                             Inl e \<Rightarrow> Inl e
                           | Inr inp_out_p_keys \<Rightarrow>
                               if \<not> length inp_out_p_keys > 0 then Inl AssertionError
                               else
                                 (case lookup_all all_keys inp_out_p_keys of
                                    Inl e \<Rightarrow> Inl e
                                  | Inr cols \<Rightarrow> Inr (inp_out_p_keys, cols))))))"

text \<open>The spec's notion: the names that are primary-key columns of every table of a
  list.  For the empty list the intersection constrains nothing (it is the set of all
  names).\<close>

definition common_pk_names :: "MetaSchema list \<Rightarrow> string set" where
  "common_pk_names mts = (\<Inter>mt \<in> set mts. set (schema_keys mt))"

text \<open>The condition under which the spec lets a step without declared transform keys
  be built: there is an input, and the input names, the output names and their
  intersection are all non-empty.\<close>

definition transform_keys_ok :: "MetaSchema list \<Rightarrow> MetaSchema list \<Rightarrow> bool" where
  "transform_keys_ok input_mts output_mts =
     (input_mts \<noteq> [] \<and> common_pk_names input_mts \<noteq> {} \<and> common_pk_names output_mts \<noteq> {}
      \<and> common_pk_names input_mts \<inter> common_pk_names output_mts \<noteq> {})"

section \<open>The data table of c12n_pipe (c12n_pipe/datatable.py)\<close>

text \<open>
  A row of the meta table has the columns of \<open>METADATA_SQL_SCHEMA\<close>; the primary key
  \<open>id\<close> is the label of the row.  Timestamps are values of \<open>time.time()\<close>; the model
  takes them from any linearly ordered type \<open>'t\<close>.
\<close>

record 't Metadata =
  hash :: nat
  create_ts :: 't
  update_ts :: 't
  process_ts :: 't
  delete_ts :: "'t option"

text \<open>A pandas \<open>Index\<close> is a list of labels, a \<open>DataFrame\<close> a list of labelled
  rows.  The set operations of \<open>Index\<close> return each label once; the order of their
  result plays no role below, every later access being by label.\<close>

type_synonym Index = "string list"

type_synonym 'a DataFrame = "(string \<times> 'a) list"

definition df_index :: "'a DataFrame \<Rightarrow> Index" where
  "df_index df = map fst df"

definition index_intersection :: "Index \<Rightarrow> Index \<Rightarrow> Index" where
  "index_intersection a b = remdups (filter (\<lambda>i. i \<in> set b) a)"

definition index_difference :: "Index \<Rightarrow> Index \<Rightarrow> Index" where
  "index_difference a b = remdups (filter (\<lambda>i. i \<notin> set b) a)"

definition index_union :: "Index \<Rightarrow> Index \<Rightarrow> Index" where
  "index_union a b = remdups (a @ b)"

text \<open>\<open>df.loc[idx]\<close> for labels that are all in the frame.\<close>

definition df_loc :: "'a DataFrame \<Rightarrow> Index \<Rightarrow> 'a DataFrame" where
  "df_loc df idx = filter (\<lambda>(i, r). i \<in> set idx) df"

text \<open>
  Modelled from the spec: the table store \<open>TableStoreDB\<close> of
  \<open>c12n_pipe.store.table_store_sql\<close> is not among the sources.  By the spec's table
  store capability, \<open>read_rows(idx)\<close> returns exactly the rows of \<open>idx\<close> (all rows
  when \<open>idx\<close> is omitted), \<open>delete_rows(idx)\<close> removes rows and ignores missing keys,
  and \<open>insert_rows\<close> and \<open>update_rows\<close> upsert by primary key.
\<close>

type_synonym 'a TableStore = "(string \<times> 'a) list"

definition read_rows :: "'a TableStore \<Rightarrow> Index option \<Rightarrow> 'a DataFrame" where
  "read_rows store idx =
     (case idx of None \<Rightarrow> store | Some ix \<Rightarrow> filter (\<lambda>(i, r). i \<in> set ix) store)"

definition delete_rows :: "'a TableStore \<Rightarrow> Index \<Rightarrow> 'a TableStore" where
  "delete_rows store idx = filter (\<lambda>(i, r). i \<notin> set idx) store"

definition update_rows :: "'a TableStore \<Rightarrow> 'a DataFrame \<Rightarrow> 'a TableStore" where
  "update_rows store df = delete_rows store (df_index df) @ df"

definition insert_rows :: "'a TableStore \<Rightarrow> 'a DataFrame \<Rightarrow> 'a TableStore" where
  "insert_rows store df = update_rows store df"

text \<open>The data table: its two stores, and the events it has sent to
  \<open>ds.event_logger.log_event\<close> as triples (added, updated, deleted).\<close>

record ('row, 't) DataTable =
  table_meta :: "'t Metadata TableStore"
  table_data :: "'row TableStore"
  event_log :: "(nat \<times> nat \<times> nat) list"

text \<open>
  \<open>_make_new_metadata_df\<close>.  \<open>pd.util.hash_pandas_object\<close> hashes the series of the
  stringified rows together with its index, so the hash of a row is a function of its
  label and its column values; that function is the parameter \<open>hash_row\<close>.
\<close>

definition make_new_metadata_df ::
  "(string \<Rightarrow> 'row \<Rightarrow> nat) \<Rightarrow> 't \<Rightarrow> 'row DataFrame \<Rightarrow> 't Metadata DataFrame"
where
  "make_new_metadata_df hash_row now df =
     map (\<lambda>(i, r). (i, \<lparr>hash = hash_row i r, create_ts = now, update_ts = now,
                          process_ts = now, delete_ts = None\<rparr>)) df"

text \<open>\<open>_make_deleted_meta_df\<close>: the old meta rows of \<open>deleted_idx\<close> with
  \<open>delete_ts\<close> set.  No function of the module calls it.\<close>

definition make_deleted_meta_df ::
  "'t \<Rightarrow> 't Metadata DataFrame \<Rightarrow> Index \<Rightarrow> 't Metadata DataFrame"
where
  "make_deleted_meta_df now old_meta_df deleted_idx =
     map (\<lambda>(i, m). (i, m\<lparr>delete_ts := Some now\<rparr>)) (df_loc old_meta_df deleted_idx)"

definition get_metadata :: "('row, 't) DataTable \<Rightarrow> Index option \<Rightarrow> 't Metadata DataFrame" where
  "get_metadata dt idx = read_rows (table_meta dt) idx"

definition get_data :: "('row, 't) DataTable \<Rightarrow> Index option \<Rightarrow> 'row DataFrame" where
  "get_data dt idx = read_rows (table_data dt) idx"

text \<open>
  \<open>dst.loc[idx, col] = src.loc[idx, col]\<close>: in every row of \<open>dst\<close> whose label is in
  \<open>idx\<close>, the column is overwritten with that of the row of \<open>src\<close> with the same
  label.  The column is given by the function \<open>copy\<close> that moves it from a source row
  into a destination row.  In \<open>store_chunk\<close> every label of \<open>idx\<close> is a label of
  \<open>src\<close>.
\<close>

definition loc_assign ::
  "('a \<Rightarrow> 'a \<Rightarrow> 'a) \<Rightarrow> Index \<Rightarrow> 'a DataFrame \<Rightarrow> 'a DataFrame \<Rightarrow> 'a DataFrame"
where
  "loc_assign copy idx src dst =
     map (\<lambda>(i, m). if i \<in> set idx
                    then (case map_of src i of Some e \<Rightarrow> (i, copy e m) | None \<Rightarrow> (i, m))
                    else (i, m)) dst"

definition copy_create_ts :: "'t Metadata \<Rightarrow> 't Metadata \<Rightarrow> 't Metadata" where
  "copy_create_ts e m = m\<lparr>create_ts := create_ts e\<rparr>"

definition copy_update_ts :: "'t Metadata \<Rightarrow> 't Metadata \<Rightarrow> 't Metadata" where
  "copy_update_ts e m = m\<lparr>update_ts := update_ts e\<rparr>"

text \<open>The labels of \<open>common_idx\<close> whose new hash differs from the stored one.\<close>

definition hash_differs :: "'t Metadata DataFrame \<Rightarrow> 't Metadata DataFrame \<Rightarrow> string \<Rightarrow> bool" where
  "hash_differs new_meta_df existing_meta_df i =
     (map_option hash (map_of new_meta_df i) \<noteq> map_option hash (map_of existing_meta_df i))"

definition store_chunk ::
  "(string \<Rightarrow> 'row \<Rightarrow> nat) \<Rightarrow> ('row, 't) DataTable \<Rightarrow> 'row DataFrame \<Rightarrow> 't
     \<Rightarrow> ('row, 't) DataTable \<times> Index"
where
  "store_chunk hash_row dt data_df now =
     (let existing_meta_df = get_metadata dt (Some (df_index data_df));
          new_meta_df = make_new_metadata_df hash_row now data_df;
          common_idx = index_intersection (df_index existing_meta_df) (df_index new_meta_df);
          changed_idx = filter (hash_differs new_meta_df existing_meta_df) common_idx;
          new_idx = index_difference (df_index new_meta_df) (df_index existing_meta_df);
          log = (if length new_idx > 0 \<or> length changed_idx > 0
                 then event_log dt @ [(length new_idx, length changed_idx, 0)]
                 else event_log dt);
          to_write_idx = index_union changed_idx new_idx;
          data = update_rows (table_data dt) (df_loc data_df to_write_idx);
          meta =
            (if length new_meta_df > 0 then
               (let deleted = delete_rows (table_meta dt) (df_index new_meta_df);
                    not_changed_idx = index_difference (df_index existing_meta_df) changed_idx;
                    new_meta_df1 = loc_assign copy_create_ts changed_idx existing_meta_df new_meta_df;
                    new_meta_df2 =
                      loc_assign copy_update_ts not_changed_idx existing_meta_df new_meta_df1
                in insert_rows deleted new_meta_df2)
             else table_meta dt)
      in (\<lparr>table_meta = meta, table_data = data, event_log = log\<rparr>, df_index data_df))"

text \<open>\<open>sync_meta\<close>: the rows of \<open>processed_idx\<close> (of the whole table when it is
  \<open>None\<close>) that are in none of the chunks are deleted from both stores.\<close>

definition sync_meta ::
  "('row, 't) DataTable \<Rightarrow> Index list \<Rightarrow> Index option \<Rightarrow> ('row, 't) DataTable"
where
  "sync_meta dt chunks processed_idx =
     (let idx = foldl index_union [] chunks;
          existing_meta_df = get_metadata dt processed_idx;
          deleted_idx = index_difference (df_index existing_meta_df) idx
      in if length deleted_idx > 0 then
           \<lparr>table_meta = delete_rows (table_meta dt) deleted_idx,
            table_data = delete_rows (table_data dt) deleted_idx,
            event_log = event_log dt @ [(0, 0, length deleted_idx)]\<rparr>
         else dt)"

text \<open>\<open>store\<close>: one chunk, then the sweep of everything the chunk does not hold.\<close>

definition store :: "(string \<Rightarrow> 'row \<Rightarrow> nat) \<Rightarrow> ('row, 't) DataTable \<Rightarrow> 'row DataFrame \<Rightarrow> 't
  \<Rightarrow> ('row, 't) DataTable"
where
  "store hash_row dt df now =
     (case store_chunk hash_row dt df now of (dt', chunk) \<Rightarrow> sync_meta dt' [chunk] None)"

definition empty_table :: "('row, 't) DataTable" where
  "empty_table = \<lparr>table_meta = [], table_data = [], event_log = []\<rparr>"

text \<open>The meta row of a label, if the table has one.\<close>

definition meta_of :: "('row, 't) DataTable \<Rightarrow> string \<Rightarrow> 't Metadata option" where
  "meta_of dt i = map_of (table_meta dt) i"

definition data_of :: "('row, 't) DataTable \<Rightarrow> string \<Rightarrow> 'row option" where
  "data_of dt i = map_of (table_data dt) i"

text \<open>The labels \<open>store_chunk\<close> computes as \<open>changed_idx\<close>.\<close>

definition changed_idx_of ::
  "(string \<Rightarrow> 'row \<Rightarrow> nat) \<Rightarrow> ('row, 't) DataTable \<Rightarrow> 'row DataFrame \<Rightarrow> 't \<Rightarrow> Index"
where
  "changed_idx_of hash_row dt data_df now =
     filter (hash_differs (make_new_metadata_df hash_row now data_df)
                (get_metadata dt (Some (df_index data_df))))
       (index_intersection (df_index (get_metadata dt (Some (df_index data_df))))
          (df_index (make_new_metadata_df hash_row now data_df)))"

text \<open>The meta row that \<open>store_chunk\<close> writes for a row of the chunk with hash \<open>h\<close>,
  by the three cases of the code: no meta row yet, a meta row with another hash, a meta
  row with the same hash.\<close>

definition written_meta :: "'t Metadata option \<Rightarrow> nat \<Rightarrow> 't \<Rightarrow> 't Metadata" where
  "written_meta existing h now =
     (case existing of
        None \<Rightarrow> \<lparr>hash = h, create_ts = now, update_ts = now, process_ts = now, delete_ts = None\<rparr>
      | Some e \<Rightarrow>
          if hash e \<noteq> h
          then \<lparr>hash = h, create_ts = create_ts e, update_ts = now, process_ts = now,
                 delete_ts = None\<rparr>
          else \<lparr>hash = h, create_ts = now, update_ts = update_ts e, process_ts = now,
                 delete_ts = None\<rparr>)"

section \<open>The file-directory table store (store/filedir.py)\<close>

text \<open>
  The regular expression \<open>\{([^/]+?)\}\<close> of the module: an opening brace, the shortest
  non-empty run of characters other than \<open>/\<close> that is followed by a closing brace, and
  that brace.  \<open>match_attr\<close> is given the text after an opening brace and returns the
  run and the text after the closing brace.
\<close>

fun scan_attr :: "string \<Rightarrow> string \<Rightarrow> (string \<times> string) option" where
  "scan_attr acc [] = None"
| "scan_attr acc (d # ds) =
     (if d = CHR ''}'' then Some (acc, ds)
      else if d = CHR ''/'' then None
      else scan_attr (acc @ [d]) ds)"

fun match_attr :: "string \<Rightarrow> (string \<times> string) option" where
  "match_attr [] = None"
| "match_attr (c # cs) = (if c = CHR ''/'' then None else scan_attr [c] cs)"

text \<open>
  \<open>re.findall\<close> of that expression, scanning from the left over non-overlapping
  matches.  The first argument counts the characters still to skip because they belong
  to the match found last.
\<close>

fun findall_attr :: "nat \<Rightarrow> string \<Rightarrow> string list" where
  "findall_attr skip [] = []"
| "findall_attr (Suc k) (c # cs) = findall_attr k cs"
| "findall_attr 0 (c # cs) =
     (if c = CHR ''{'' then
        (case match_attr cs of
           Some (a, rest) \<Rightarrow> a # findall_attr (length a + 1) cs
         | None \<Rightarrow> findall_attr 0 cs)
      else findall_attr 0 cs)"

text \<open>\<open>_pattern_to_attrnames\<close>, with its two assertions.\<close>

definition pattern_to_attrnames :: "string \<Rightarrow> py_error + string list" where
  "pattern_to_attrnames pat =
     (let attrnames = findall_attr 0 pat in
      if \<not> length attrnames > 0 then Inl AssertionError
      else if length attrnames \<ge> 2 \<and> \<not> distinct attrnames then Inl AssertionError
      else Inr attrnames)"

text \<open>
  \<open>_filename_from_idxs_values\<close>: \<open>re.sub\<close> of the expression with a \<open>Replacer\<close>,
  which hands out the values one by one and raises \<open>IndexError\<close> when a match finds none
  left.
\<close>

fun sub_attr :: "nat \<Rightarrow> string list \<Rightarrow> string \<Rightarrow> py_error + string" where
  "sub_attr skip values [] = Inr []"
| "sub_attr (Suc k) values (c # cs) = sub_attr k values cs"
| "sub_attr 0 values (c # cs) =
     (if c = CHR ''{'' then
        (case match_attr cs of
           Some (a, rest) \<Rightarrow>
             (case values of
                [] \<Rightarrow> Inl IndexError
              | v # vs \<Rightarrow>
                  (case sub_attr (length a + 1) vs cs of
                     Inl e \<Rightarrow> Inl e
                   | Inr t \<Rightarrow> Inr (v @ t)))
         | None \<Rightarrow>
             (case sub_attr 0 values cs of Inl e \<Rightarrow> Inl e | Inr t \<Rightarrow> Inr (c # t)))
      else (case sub_attr 0 values cs of Inl e \<Rightarrow> Inl e | Inr t \<Rightarrow> Inr (c # t)))"

text \<open>
  The store object.  Of the constructor's arguments the model keeps those that the write
  operations read; the adapter is the identity on the file contents \<open>'d\<close>.
\<close>

record TableStoreFiledir =
  filename_pattern :: string
  readonly :: bool
  enable_rm :: bool
  attrnames :: "string list"
  primary_schema :: MetaSchema

definition filename_from_idxs_values :: "TableStoreFiledir \<Rightarrow> string list \<Rightarrow> py_error + string" where
  "filename_from_idxs_values st idxs_values = sub_attr 0 idxs_values (filename_pattern st)"

text \<open>\<open>sorted(xs) == sorted(ys)\<close>: the two lists hold the same elements the same number
  of times.\<close>

definition same_sorted :: "string list \<Rightarrow> string list \<Rightarrow> bool" where
  "same_sorted xs ys = list_all (\<lambda>x. count_list xs x = count_list ys x) (xs @ ys)"

text \<open>
  \<open>TableStoreFiledir.__init__\<close>.  \<open>readonly\<close> is the optional argument: with a
  \<open>*\<close> in the path, \<open>readonly=False\<close> is refused and \<open>None\<close> becomes \<open>True\<close>;
  without one, \<open>None\<close> becomes \<open>False\<close>.  The path is taken as given (the code
  resolves a local path to an absolute one first).  Both column types of the model pass
  the \<open>isinstance\<close> assertion on an explicit schema.
\<close>

definition TableStoreFiledir_init ::
  "string \<Rightarrow> MetaSchema option \<Rightarrow> bool option \<Rightarrow> bool \<Rightarrow> py_error + TableStoreFiledir"
where
  "TableStoreFiledir_init pattern schema readonly_arg enable_rm_arg =
     (case (if CHR ''*'' \<in> set pattern then
              (case readonly_arg of
                 Some False \<Rightarrow> Inl ValueError
               | Some True \<Rightarrow> Inr True
               | None \<Rightarrow> Inr True)
            else
              (case readonly_arg of None \<Rightarrow> Inr False | Some b \<Rightarrow> Inr b)) of
        Inl e \<Rightarrow> Inl e
      | Inr ro \<Rightarrow>
          (case pattern_to_attrnames pattern of
             Inl e \<Rightarrow> Inl e
           | Inr names \<Rightarrow>
               (case schema of
                  Some cols \<Rightarrow>
                    if \<not> same_sorted names (map col_name cols) then Inl AssertionError
                    else Inr \<lparr>filename_pattern = pattern, readonly = ro,
                              enable_rm = enable_rm_arg, attrnames = names,
                              primary_schema = cols\<rparr>
                | None \<Rightarrow>
                    Inr \<lparr>filename_pattern = pattern, readonly = ro,
                         enable_rm = enable_rm_arg, attrnames = names,
                         primary_schema =
                           map (\<lambda>a. \<lparr>col_name = a, col_type = SAString\<rparr>) names\<rparr>)))"

text \<open>
  The files of the store: a map from path to contents.  A write operation returns the
  exception it ended with, if any, and the files as it left them (an exception in the
  middle of a loop keeps what the loop has written before).
\<close>

type_synonym 'd Files = "string \<rightharpoonup> 'd"

text \<open>
  A frame handed to \<open>insert_rows\<close> is a list of rows, each with the values of the
  \<open>attrnames\<close> columns and the remaining columns as the file's contents.
  \<open>_assert_key_values\<close> parses the file name back with the regular expression
  \<open>filename_match\<close> and compares; the outcome of that match is the parameter
  \<open>key_values_ok\<close>.
\<close>

fun write_files ::
  "TableStoreFiledir \<Rightarrow> (string \<Rightarrow> string list \<Rightarrow> bool) \<Rightarrow> (string list \<times> 'd) list
     \<Rightarrow> 'd Files \<Rightarrow> py_error option \<times> 'd Files"
where
  "write_files st key_values_ok [] files = (None, files)"
| "write_files st key_values_ok ((idxs_values, data) # rows) files =
     (case filename_from_idxs_values st idxs_values of
        Inl e \<Rightarrow> (Some e, files)
      | Inr filepath \<Rightarrow>
          if \<not> key_values_ok filepath idxs_values then (Some AssertionError, files)
          else write_files st key_values_ok rows (files(filepath \<mapsto> data)))"

definition filedir_insert_rows ::
  "TableStoreFiledir \<Rightarrow> (string \<Rightarrow> string list \<Rightarrow> bool) \<Rightarrow> (string list \<times> 'd) list
     \<Rightarrow> 'd Files \<Rightarrow> py_error option \<times> 'd Files"
where
  "filedir_insert_rows st key_values_ok df files =
     (if df = [] then (None, files)
      else if \<not> (\<not> readonly st) then (Some AssertionError, files)
      else write_files st key_values_ok df files)"

text \<open>\<open>filesystem.rm(path)\<close> in the loop of \<open>delete_rows\<close>; removing a file that
  does not exist raises.\<close>

fun rm_files ::
  "TableStoreFiledir \<Rightarrow> string list list \<Rightarrow> 'd Files \<Rightarrow> py_error option \<times> 'd Files"
where
  "rm_files st [] files = (None, files)"
| "rm_files st (idxs_values # idx) files =
     (case filename_from_idxs_values st idxs_values of
        Inl e \<Rightarrow> (Some e, files)
      | Inr path \<Rightarrow>
          if files path = None then (Some FileNotFoundError, files)
          else rm_files st idx (files(path := None)))"

definition filedir_delete_rows ::
  "TableStoreFiledir \<Rightarrow> string list list \<Rightarrow> 'd Files \<Rightarrow> py_error option \<times> 'd Files"
where
  "filedir_delete_rows st idx files =
     (if \<not> enable_rm st then (None, files)
      else if \<not> (\<not> readonly st) then (Some AssertionError, files)
      else rm_files st idx files)"

text \<open>
  Modelled from the spec: \<open>TableStoreFiledir\<close> defines no \<open>update_rows\<close> of its own and
  its base class \<open>TableStore\<close> (\<open>datapipe.store.table_store\<close>) is not among the
  sources.  The spec gives \<open>insert_rows\<close> and \<open>update_rows\<close> one contract, upsert by
  primary key, which for this store is what \<open>insert_rows\<close> does.
\<close>

definition filedir_update_rows ::
  "TableStoreFiledir \<Rightarrow> (string \<Rightarrow> string list \<Rightarrow> bool) \<Rightarrow> (string list \<times> 'd) list
     \<Rightarrow> 'd Files \<Rightarrow> py_error option \<times> 'd Files"
where
  "filedir_update_rows st key_values_ok df files = filedir_insert_rows st key_values_ok df files"

section \<open>Data tables and the step executor of datapipe (compute.py)\<close>

text \<open>
  Modelled from the spec: the classes \<open>DataTable\<close> and \<open>DataStore\<close> of
  \<open>datapipe.datatable\<close> and the meta tables of \<open>datapipe.metastore\<close> are imported by
  \<open>compute.py\<close> and \<open>core_steps.py\<close> but are not among the sources.  By the spec a
  data table pairs a store of data rows with its row-meta table, both keyed by the
  primary key; \<open>get_existing_idx(idx)\<close> returns the subset of \<open>idx\<close> present with
  \<open>delete_ts\<close> null; \<open>mark_rows_deleted(idx, now)\<close> sets \<open>delete_ts = now\<close> on the
  listed keys and erases no meta row; deleting by index tombstones the rows: they are
  removed from the data store and their meta rows get \<open>delete_ts\<close>; \<open>read_rows(idx)\<close>
  returns exactly the rows of \<open>idx\<close>.
\<close>

record ('k, 'row, 't) MetaDataTable =
  data_rows :: "('k \<times> 'row) list"
  meta_rows :: "('k \<times> 't Metadata) list"

definition get_existing_idx :: "('k, 'row, 't) MetaDataTable \<Rightarrow> 'k IndexDF \<Rightarrow> 'k IndexDF" where
  "get_existing_idx dt idx =
     filter (\<lambda>k. case map_of (meta_rows dt) k of
                    None \<Rightarrow> False
                  | Some m \<Rightarrow> delete_ts m = None) idx"

definition mark_rows_deleted ::
  "('k \<times> 't Metadata) list \<Rightarrow> 'k IndexDF \<Rightarrow> 't \<Rightarrow> ('k \<times> 't Metadata) list"
where
  "mark_rows_deleted meta idx now =
     map (\<lambda>(k, m). if k \<in> set idx then (k, m\<lparr>delete_ts := Some now\<rparr>) else (k, m)) meta"

definition delete_by_idx ::
  "('k, 'row, 't) MetaDataTable \<Rightarrow> 'k IndexDF \<Rightarrow> 't \<Rightarrow> ('k, 'row, 't) MetaDataTable"
where
  "delete_by_idx dt idx now =
     \<lparr>data_rows = filter (\<lambda>(k, r). k \<notin> set idx) (data_rows dt),
      meta_rows = mark_rows_deleted (meta_rows dt) idx now\<rparr>"


text \<open>
  The row of a step's transform-meta table, by the spec: \<open>process_ts\<close>,
  \<open>is_success\<close>, \<open>priority\<close> and the nullable \<open>error\<close>, keyed by the transform
  keys.
\<close>

record 't TransformMeta =
  tr_process_ts :: 't
  is_success :: bool
  priority :: int
  error :: "string option"










text \<open>The change list the spec gives to a delete batch: one entry per output, with
  the keys deleted from it.\<close>

definition changes_of_delete_batch ::
  "string list \<Rightarrow> 'k IndexDF \<Rightarrow> (string \<Rightarrow> ('k, 'row, 't) MetaDataTable) \<Rightarrow> 'k ChangeList"
where
  "changes_of_delete_batch outs idx tbls =
     map (\<lambda>name. (name, get_existing_idx (tbls name) idx)) outs"

section \<open>The change-set planner (core_steps.py)\<close>

subsection \<open>SQL values and three-valued logic\<close>

text \<open>
  The planner is an SQL query.  The model evaluates the query on the rows of the meta
  tables.  A nullable SQL value is an \<open>option\<close> with \<open>None\<close> for \<open>NULL\<close>; a predicate
  has the three truth values \<open>Some True\<close>, \<open>Some False\<close> and \<open>None\<close> (unknown), and
  \<open>WHERE\<close> and \<open>ON\<close> keep a row when their predicate is \<open>Some True\<close>.
\<close>

definition sql_and :: "bool option \<Rightarrow> bool option \<Rightarrow> bool option" where
  "sql_and a b =
     (if a = Some False \<or> b = Some False then Some False
      else if a = Some True \<and> b = Some True then Some True
      else None)"

definition sql_or :: "bool option \<Rightarrow> bool option \<Rightarrow> bool option" where
  "sql_or a b =
     (if a = Some True \<or> b = Some True then Some True
      else if a = Some False \<and> b = Some False then Some False
      else None)"

definition sql_eq :: "'a option \<Rightarrow> 'a option \<Rightarrow> bool option" where
  "sql_eq a b = (case (a, b) of (Some x, Some y) \<Rightarrow> Some (x = y) | _ \<Rightarrow> None)"

definition sql_ne :: "'a option \<Rightarrow> 'a option \<Rightarrow> bool option" where
  "sql_ne a b = (case (a, b) of (Some x, Some y) \<Rightarrow> Some (x \<noteq> y) | _ \<Rightarrow> None)"

definition sql_gt :: "('t::linorder) option \<Rightarrow> 't option \<Rightarrow> bool option" where
  "sql_gt a b = (case (a, b) of (Some x, Some y) \<Rightarrow> Some (x > y) | _ \<Rightarrow> None)"

definition sql_is_null :: "'a option \<Rightarrow> bool option" where
  "sql_is_null a = Some (a = None)"

text \<open>\<open>and_(*preds)\<close>.\<close>

definition sql_and_list :: "bool option list \<Rightarrow> bool option" where
  "sql_and_list preds = foldr sql_and preds (Some True)"

definition sql_true :: "bool option \<Rightarrow> bool" where
  "sql_true p = (p = Some True)"

text \<open>\<open>coalesce\<close>: the first argument that is not \<open>NULL\<close>.\<close>

fun coalesce :: "'a option list \<Rightarrow> 'a option" where
  "coalesce [] = None"
| "coalesce (None # xs) = coalesce xs"
| "coalesce (Some x # xs) = Some x"

text \<open>The aggregate \<open>max\<close> over the values of a group: \<open>NULL\<close> for no value.\<close>

fun max_agg :: "('t::linorder) list \<Rightarrow> 't option" where
  "max_agg [] = None"
| "max_agg (x # xs) = Some (fold max xs x)"

text \<open>
  \<open>greatest_func\<close>: for the drivers \<open>sqlite\<close> and \<open>pysqlite\<close> the code takes
  \<open>func.max\<close>, SQLite's scalar \<open>max(X, Y, ...)\<close>, which returns \<open>NULL\<close> if any
  argument is \<open>NULL\<close>; for every other driver it takes \<open>func.greatest\<close>, which
  ignores \<open>NULL\<close> arguments and returns \<open>NULL\<close> only when all of them are.
\<close>

datatype sql_driver = Sqlite | OtherDriver

definition greatest_func :: "sql_driver \<Rightarrow> ('t::linorder) option list \<Rightarrow> 't option" where
  "greatest_func driver args =
     (case driver of
        Sqlite \<Rightarrow> (if None \<in> set args then None else max_agg (map the args))
      | OtherDriver \<Rightarrow> max_agg (map the (filter (\<lambda>a. a \<noteq> None) args)))"

text \<open>\<open>L FULL OUTER JOIN R ON on\<close>: the pairs that satisfy \<open>on\<close>, then the rows of
  \<open>L\<close> without a partner, then the rows of \<open>R\<close> without a partner.\<close>

definition full_outer_join ::
  "('l \<Rightarrow> 'r \<Rightarrow> bool) \<Rightarrow> 'l list \<Rightarrow> 'r list \<Rightarrow> ('l option \<times> 'r option) list"
where
  "full_outer_join on ls rs =
     concat (map (\<lambda>l. map (\<lambda>r. (Some l, Some r)) (filter (on l) rs)) ls)
     @ map (\<lambda>l. (Some l, None)) (filter (\<lambda>l. \<not> list_ex (on l) rs) ls)
     @ map (\<lambda>r. (None, Some r)) (filter (\<lambda>r. \<not> list_ex (\<lambda>l. on l r) ls) rs)"

subsection \<open>The tables the planner reads\<close>

text \<open>
  Of an input data table the planner reads its name, the names of the primary-key
  columns and the rows of its meta table: the values of the primary-key columns, in the order of the
  names, and the meta columns.  The transform-meta table is keyed by the transform keys;
  its rows hold their values in the order of \<open>transform_keys\<close>.
\<close>

record ('v, 't) InputTable =
  table_name :: string
  primary_keys :: "string list"
  sql_table :: "('v list \<times> 't Metadata) list"

type_synonym ('v, 't) TransformMetaTable = "('v list \<times> 't TransformMeta) list"

text \<open>The value of the column \<open>k\<close> in a row with the columns \<open>cols\<close>.\<close>

definition row_col :: "string list \<Rightarrow> 'a option list \<Rightarrow> string \<Rightarrow> 'a option" where
  "row_col cols vals k = (case map_of (zip cols vals) k of None \<Rightarrow> None | Some v \<Rightarrow> v)"

text \<open>A row of an aggregate: the values of its key columns and \<open>update_ts\<close>.  An
  aggregate is the pair of its key names and its rows, as in the source.\<close>

type_synonym ('v, 't) agg_row = "'v option list \<times> 't option"

type_synonym ('v, 't) agg_cte = "string list \<times> ('v, 't) agg_row list"

text \<open>\<open>sql_apply_runconfig_filter\<close>: a filter on a primary-key column of the table
  keeps the rows with that value; other filters are ignored.\<close>

definition sql_apply_runconfig_filter ::
  "string list \<Rightarrow> (string \<times> 'v) list \<Rightarrow> ('v list \<times> 'm) list \<Rightarrow> ('v list \<times> 'm) list"
where
  "sql_apply_runconfig_filter pks filters rows =
     filter (\<lambda>(vals, m).
        list_all (\<lambda>(k, v). k \<in> set pks \<longrightarrow> row_col pks (map Some vals) k = Some v) filters)
       rows"

text \<open>
  \<open>_make_agg_cte(dt, func.max, "update_ts")\<close>: the meta rows grouped by the transform
  keys that are primary keys of the table, with the maximum of \<open>update_ts\<close> per group.
  With no such key there is no \<open>GROUP BY\<close> and the aggregate has one row.
\<close>

definition make_agg_cte ::
  "string list \<Rightarrow> (string \<times> 'v) list \<Rightarrow> ('v, 't::linorder) InputTable \<Rightarrow> ('v, 't) agg_cte"
where
  "make_agg_cte transform_keys filters dt =
     (let keys = filter (\<lambda>k. k \<in> set (primary_keys dt)) transform_keys;
          rows = sql_apply_runconfig_filter (primary_keys dt) filters (sql_table dt);
          key_of = (\<lambda>(vals, m). map (row_col (primary_keys dt) (map Some vals)) keys)
      in (keys,
          if keys = [] then [([], max_agg (map (\<lambda>(vals, m). update_ts m) rows))]
          else map (\<lambda>g. (g, max_agg (map (\<lambda>(vals, m). update_ts m)
                                      (filter (\<lambda>r. key_of r = g) rows))))
                 (remdups (map key_of rows))))"

text \<open>
  The chain of full outer joins of \<open>_make_agg_of_agg\<close>.  A joined row holds, for the
  first aggregate and for each aggregate joined so far, its row or \<open>None\<close> where the
  join padded with \<open>NULL\<close>s.  Every join compares with the columns of the first
  aggregate; without common transform keys the join condition is \<open>literal(True)\<close>.
\<close>

type_synonym ('v, 't) joined_row = "('v, 't) agg_row option \<times> ('v, 't) agg_row option list"

definition part_col :: "string list \<Rightarrow> ('v, 't) agg_row option \<Rightarrow> string \<Rightarrow> 'v option" where
  "part_col keys part k = (case part of None \<Rightarrow> None | Some (vals, ts) \<Rightarrow> row_col keys vals k)"

definition part_ts :: "('v, 't) agg_row option \<Rightarrow> 't option" where
  "part_ts part = (case part of None \<Rightarrow> None | Some (vals, ts) \<Rightarrow> ts)"

definition join_on ::
  "string list \<Rightarrow> string list \<Rightarrow> string list \<Rightarrow> ('v, 't) joined_row \<Rightarrow> ('v, 't) agg_row \<Rightarrow> bool"
where
  "join_on common_transform_keys first_keys keys l r =
     (if length common_transform_keys > 0 then
        sql_true (sql_and_list
          (map (\<lambda>key. sql_eq (part_col first_keys (fst l) key) (row_col keys (fst r) key))
             common_transform_keys))
      else True)"

fun join_ctes ::
  "string list \<Rightarrow> string list \<Rightarrow> ('v, 't) joined_row list \<Rightarrow> nat \<Rightarrow> ('v, 't) agg_cte list
     \<Rightarrow> ('v, 't) joined_row list"
where
  "join_ctes common_transform_keys first_keys joined n [] = joined"
| "join_ctes common_transform_keys first_keys joined n ((keys, rows) # ctes) =
     join_ctes common_transform_keys first_keys
       (map (\<lambda>(l, r).
               (case l of
                  Some (first, others) \<Rightarrow> (first, others @ [r])
                | None \<Rightarrow> (None, replicate n None @ [r])))
          (full_outer_join (join_on common_transform_keys first_keys keys) joined rows))
       (n + 1) ctes"

text \<open>The select list of the joined rows: per transform key the \<open>coalesce\<close> of the
  columns of the aggregates that have it, and \<open>greatest_func\<close> of all \<open>update_ts\<close>.\<close>

definition select_agg_of_agg ::
  "sql_driver \<Rightarrow> string list \<Rightarrow> string list list \<Rightarrow> ('v, 't::linorder) joined_row \<Rightarrow> ('v, 't) agg_row"
where
  "select_agg_of_agg driver transform_keys ctes_keys row =
     (let parts = fst row # snd row in
      (map (\<lambda>key. coalesce
               (map (\<lambda>(keys, part). part_col keys part key)
                  (filter (\<lambda>(keys, part). key \<in> set keys) (zip ctes_keys parts))))
          transform_keys,
       greatest_func driver (map part_ts parts)))"

definition make_agg_of_agg ::
  "sql_driver \<Rightarrow> string list \<Rightarrow> string list \<Rightarrow> ('v, 't::linorder) agg_cte list
     \<Rightarrow> py_error + ('v, 't) agg_cte"
where
  "make_agg_of_agg driver transform_keys common_transform_keys ctes =
     (case ctes of
        [] \<Rightarrow> Inl AssertionError
      | [cte] \<Rightarrow> Inr cte
      | (first_keys, first_rows) # rest \<Rightarrow>
          if list_ex (\<lambda>key. \<not> list_ex (\<lambda>(keys, rows). key \<in> set keys) ctes) transform_keys
          then Inl ValueError
          else Inr (transform_keys,
                 map (select_agg_of_agg driver transform_keys (map fst ctes))
                   (join_ctes common_transform_keys first_keys
                      (map (\<lambda>r. (Some r, [])) first_rows) 0 rest)))"

subsection \<open>The query of the changed keys\<close>

text \<open>A candidate row of the final join: the row of the input aggregate and the row of
  the transform-meta table, either of which may be missing.\<close>

type_synonym ('v, 't) candidate = "('v, 't) agg_row option \<times> ('v list \<times> 't TransformMeta) option"

definition out_col :: "string list \<Rightarrow> ('v list \<times> 't TransformMeta) option \<Rightarrow> string \<Rightarrow> 'v option" where
  "out_col transform_keys out k =
     (case out of None \<Rightarrow> None | Some (vals, t) \<Rightarrow> row_col transform_keys (map Some vals) k)"

definition out_process_ts :: "('v list \<times> 't TransformMeta) option \<Rightarrow> 't option" where
  "out_process_ts out = map_option (\<lambda>(vals, t). tr_process_ts t) out"

definition out_is_success :: "('v list \<times> 't TransformMeta) option \<Rightarrow> bool option" where
  "out_is_success out = map_option (\<lambda>(vals, t). is_success t) out"

definition out_priority :: "('v list \<times> 't TransformMeta) option \<Rightarrow> int option" where
  "out_priority out = map_option (\<lambda>(vals, t). priority t) out"

text \<open>The \<open>WHERE\<close> clause:
  \<open>(is_success = true AND update_ts > process_ts) OR is_success != true OR process_ts IS NULL\<close>.\<close>

definition changed_where :: "('v, 't::linorder) candidate \<Rightarrow> bool option" where
  "changed_where c =
     sql_or
       (sql_or
          (sql_and (sql_eq (out_is_success (snd c)) (Some True))
                   (sql_gt (part_ts (fst c)) (out_process_ts (snd c))))
          (sql_ne (out_is_success (snd c)) (Some True)))
       (sql_is_null (out_process_ts (snd c)))"

text \<open>The \<open>ON\<close> clause of the final join: equality on every transform key.\<close>

definition changed_on ::
  "string list \<Rightarrow> ('v, 't) agg_row \<Rightarrow> 'v list \<times> 't TransformMeta \<Rightarrow> bool"
where
  "changed_on transform_keys i out =
     sql_true (sql_and_list
       (map (\<lambda>key. sql_eq (row_col transform_keys (fst i) key)
                          (out_col transform_keys (Some out) key))
          transform_keys))"

text \<open>The select list of the final query: per transform key, the \<open>coalesce\<close> of the
  input column and the transform-meta column.\<close>

definition changed_select :: "string list \<Rightarrow> ('v, 't) candidate \<Rightarrow> 'v option list" where
  "changed_select transform_keys c =
     map (\<lambda>key. coalesce [part_col transform_keys (fst c) key, out_col transform_keys (snd c) key])
       transform_keys"

text \<open>
  \<open>ORDER BY priority DESC NULLS LAST, keys\<close>.  How the database compares two key
  tuples is the parameter \<open>key_le\<close>; the sort is an insertion sort with the resulting
  comparison.
\<close>

definition order_le ::
  "('k \<Rightarrow> 'k \<Rightarrow> bool) \<Rightarrow> int option \<times> 'k \<Rightarrow> int option \<times> 'k \<Rightarrow> bool"
where
  "order_le key_le a b =
     (case (fst a, fst b) of
        (Some p, Some q) \<Rightarrow> p > q \<or> (p = q \<and> key_le (snd a) (snd b))
      | (Some p, None) \<Rightarrow> True
      | (None, Some q) \<Rightarrow> False
      | (None, None) \<Rightarrow> key_le (snd a) (snd b))"

fun insort_row :: "('a \<Rightarrow> 'a \<Rightarrow> bool) \<Rightarrow> 'a \<Rightarrow> 'a list \<Rightarrow> 'a list" where
  "insort_row le x [] = [x]"
| "insort_row le x (y # ys) = (if le x y then x # y # ys else y # insort_row le x ys)"

definition order_by :: "('a \<Rightarrow> 'a \<Rightarrow> bool) \<Rightarrow> 'a list \<Rightarrow> 'a list" where
  "order_by le rows = foldr (insort_row le) rows []"

text \<open>
  \<open>_build_changed_idx_sql\<close>, evaluated: the rows of the query it builds, or the
  exception it raises while building.  \<open>inputs\<close> are the input tables of the step,
  \<open>output_pks\<close> the primary-key names of its output tables, \<open>tr_tbl\<close> the transform-meta table of the step, \<open>filters\<close> the
  filters of the run configuration.  The \<open>transform\<close> subquery groups the transform-meta
  table by its own primary key, which leaves its rows as they are.
\<close>

definition build_changed_idx_sql ::
  "sql_driver \<Rightarrow> string list \<Rightarrow> ('v, 't::linorder) InputTable list \<Rightarrow> string list list
     \<Rightarrow> ('v, 't) TransformMetaTable \<Rightarrow> (string \<times> 'v) list
     \<Rightarrow> ('v option list \<Rightarrow> 'v option list \<Rightarrow> bool)
     \<Rightarrow> py_error + 'v option list list"
where
  "build_changed_idx_sql driver transform_keys inputs output_pks tr_tbl filters key_le =
     (if length transform_keys = 0 then Inl NotImplementedError
      else
        (let all_names = concat (map primary_keys inputs);
             all_input_keys_counts = (\<lambda>k. count_list all_names k)
         in case set_intersection output_pks of
              Inl e \<Rightarrow> Inl e
            | Inr output_insersection \<Rightarrow>
                if \<not> list_all (\<lambda>k. all_input_keys_counts k = 1
                                    \<or> all_input_keys_counts k = length inputs) all_names
                then Inl AssertionError
                else
                  (let common_keys =
                         filter (\<lambda>k. all_input_keys_counts k = length inputs)
                           (remdups all_names);
                       common_transform_keys =
                         filter (\<lambda>k. k \<in> set common_keys) transform_keys;
                       inp_ctes = map (make_agg_cte transform_keys filters) inputs
                   in case make_agg_of_agg driver transform_keys common_transform_keys inp_ctes of
                        Inl e \<Rightarrow> Inl e
                      | Inr (inp_keys, inp_rows) \<Rightarrow>
                          if list_ex (\<lambda>key. key \<notin> set inp_keys) transform_keys
                          then Inl KeyError
                          else
                            Inr (map snd
                              (order_by (order_le key_le)
                                (map (\<lambda>c. (out_priority (snd c),
                                            changed_select transform_keys c))
                                  (filter (\<lambda>c. sql_true (changed_where c))
                                    (full_outer_join (changed_on transform_keys)
                                       inp_rows tr_tbl))))))))"

subsection \<open>The two entry points of the planner\<close>

text \<open>What the planner reads of a \<open>BaseBatchTransformStep\<close>: its transform keys, its
  chunk size, its filters, its input tables, the primary-key names of its output tables,
  its transform-meta table, and the driver of the meta database.\<close>

record ('v, 't) BaseBatchTransformStep =
  step_transform_keys :: "string list"
  step_chunk_size :: nat
  step_filters :: "(string \<times> 'v) list option"
  step_inputs :: "('v, 't) InputTable list"
  step_output_pks :: "string list list"
  step_meta_table :: "('v, 't) TransformMetaTable"
  step_driver :: sql_driver

text \<open>
  \<open>_apply_filters_to_run_config\<close>.  Of a run configuration the planner reads the
  dict \<open>filters\<close>, an association list here; \<open>filters.update(run_config.filters)\<close>
  lets the run configuration win on a shared column.
\<close>

definition apply_filters_to_run_config ::
  "(string \<times> 'v) list option \<Rightarrow> (string \<times> 'v) list option \<Rightarrow> (string \<times> 'v) list option"
where
  "apply_filters_to_run_config self_filters run_config =
     (case self_filters of
        None \<Rightarrow> run_config
      | Some fs \<Rightarrow>
          (case run_config of
             None \<Rightarrow> Some fs
           | Some rc \<Rightarrow> Some (rc @ filter (\<lambda>(k, v). k \<notin> set (map fst rc)) fs)))"

definition run_config_filters :: "(string \<times> 'v) list option \<Rightarrow> (string \<times> 'v) list" where
  "run_config_filters run_config = (case run_config of None \<Rightarrow> [] | Some rc \<Rightarrow> rc)"

text \<open>\<open>math.ceil(a / b)\<close> for a count \<open>a\<close> and a positive size \<open>b\<close>.\<close>

definition ceil_div :: "nat \<Rightarrow> nat \<Rightarrow> nat" where
  "ceil_div a b = (a + b - 1) div b"

text \<open>The frames of \<open>pd.read_sql_query(sql, chunksize=n)\<close>: the rows of the result,
  \<open>n\<close> at a time.\<close>

function chunks_of :: "nat \<Rightarrow> 'a list \<Rightarrow> 'a list list" where
  "chunks_of n xs = (if n = 0 \<or> xs = [] then [] else take n xs # chunks_of n (drop n xs))"
  by pat_completeness auto
termination
  by (relation "measure (\<lambda>(n, xs). length xs)") auto

declare chunks_of.simps [simp del]

text \<open>\<open>get_changed_idx_count\<close>: the number of rows of the query.\<close>

definition get_changed_idx_count ::
  "('v, 't::linorder) BaseBatchTransformStep \<Rightarrow> ('v option list \<Rightarrow> 'v option list \<Rightarrow> bool)
     \<Rightarrow> (string \<times> 'v) list option \<Rightarrow> py_error + nat"
where
  "get_changed_idx_count step key_le run_config =
     (case build_changed_idx_sql (step_driver step) (step_transform_keys step) (step_inputs step)
             (step_output_pks step) (step_meta_table step)
             (run_config_filters (apply_filters_to_run_config (step_filters step) run_config))
             key_le of
        Inl e \<Rightarrow> Inl e
      | Inr rows \<Rightarrow> Inr (length rows))"

text \<open>
  \<open>get_full_process_ids\<close>.  The result is the pair of the count and the batches the
  generator yields; a batch is a list of rows, each the key tuple followed by the
  constant columns of the filters that are not transform keys.
  \<open>chunk_size or self.chunk_size\<close> takes the step's size for \<open>None\<close> and for 0.
\<close>

definition get_full_process_ids ::
  "('v, 't::linorder) BaseBatchTransformStep \<Rightarrow> ('v option list \<Rightarrow> 'v option list \<Rightarrow> bool)
     \<Rightarrow> nat option \<Rightarrow> (string \<times> 'v) list option
     \<Rightarrow> py_error + (nat \<times> 'v option list list list)"
where
  "get_full_process_ids step key_le chunk_size_arg run_config_arg =
     (let run_config = apply_filters_to_run_config (step_filters step) run_config_arg;
          chunk_size = (case chunk_size_arg of
                          None \<Rightarrow> step_chunk_size step
                        | Some c \<Rightarrow> if c = 0 then step_chunk_size step else c)
      in if length (step_inputs step) = 0 then Inr (0, [])
         else
           (case get_changed_idx_count step key_le run_config of
              Inl e \<Rightarrow> Inl e
            | Inr idx_count \<Rightarrow>
                (case build_changed_idx_sql (step_driver step) (step_transform_keys step)
                        (step_inputs step) (step_output_pks step) (step_meta_table step)
                        (run_config_filters run_config) key_le of
                   Inl e \<Rightarrow> Inl e
                 | Inr u1 \<Rightarrow>
                     (let extra_filters =
                            filter (\<lambda>(k, v). k \<notin> set (step_transform_keys step))
                              (run_config_filters run_config)
                      in if chunk_size = 0 then Inl ZeroDivisionError
                         else Inr (ceil_div idx_count chunk_size,
                                map (map (\<lambda>row. row @ map (\<lambda>(k, v). Some v) extra_filters))
                                  (chunks_of chunk_size u1))))))"

text \<open>
  \<open>data_to_index(idx, transform_keys)\<close> on the rows of a change-list entry, each row a
  dict from column to value: the columns of the transform keys, or \<open>KeyError\<close> where a
  row has no such column.
\<close>

fun data_to_index ::
  "(string \<times> 'v) list list \<Rightarrow> string list \<Rightarrow> py_error + 'v list list"
where
  "data_to_index [] keys = Inr []"
| "data_to_index (row # rows) keys =
     (if list_ex (\<lambda>k. map_of row k = None) keys then Inl KeyError
      else (case data_to_index rows keys of
              Inl e \<Rightarrow> Inl e
            | Inr idx \<Rightarrow> Inr (map (\<lambda>k. the (map_of row k)) keys # idx)))"

text \<open>The loop over the inputs of \<open>get_change_list_process_ids\<close>: the entries of the
  change list under the names of the input tables, projected and concatenated.\<close>

fun collect_changes ::
  "string list \<Rightarrow> (string \<times> 'v) list ChangeList \<Rightarrow> ('v, 't) InputTable list
     \<Rightarrow> py_error + 'v list list"
where
  "collect_changes keys change_list [] = Inr []"
| "collect_changes keys change_list (inp # inps) =
     (case map_of change_list (table_name inp) of
        None \<Rightarrow> collect_changes keys change_list inps
      | Some idx \<Rightarrow>
          (case data_to_index idx keys of
             Inl e \<Rightarrow> Inl e
           | Inr here \<Rightarrow>
               (case collect_changes keys change_list inps of
                  Inl e \<Rightarrow> Inl e
                | Inr later \<Rightarrow> Inr (here @ later))))"

text \<open>\<open>drop_duplicates\<close> keeps the first of equal rows.\<close>

definition drop_duplicates :: "'a list \<Rightarrow> 'a list" where
  "drop_duplicates xs = rev (remdups (rev xs))"

text \<open>
  \<open>get_change_list_process_ids\<close>.  The first component is what the function returns
  first, \<open>len(idx)\<close>; the second is what the generator \<open>gen()\<close> yields when it is run:
  the slices \<open>idx[i * chunk_size : (i + 1) * chunk_size]\<close> for \<open>i\<close> below
  \<open>math.ceil(len(idx) / chunk_size)\<close>, or the \<open>ZeroDivisionError\<close> of that division.
\<close>

definition get_change_list_process_ids ::
  "('v, 't) BaseBatchTransformStep \<Rightarrow> (string \<times> 'v) list ChangeList
     \<Rightarrow> py_error + (nat \<times> (py_error + 'v list list list))"
where
  "get_change_list_process_ids step change_list =
     (case collect_changes (step_transform_keys step) change_list (step_inputs step) of
        Inl e \<Rightarrow> Inl e
      | Inr changes \<Rightarrow>
          (let idx = drop_duplicates changes
           in Inr (length idx,
                if step_chunk_size step = 0 then Inl ZeroDivisionError
                else Inr (map (\<lambda>i. take (step_chunk_size step) (drop (i * step_chunk_size step) idx))
                            [0 ..< ceil_div (length idx) (step_chunk_size step)]))))"

subsection \<open>The stale predicate of the spec\<close>

text \<open>
  The transform-key tuple of a meta row of an input table, and the candidates of a step
  with one input table: the tuples of its meta rows and the keys of the transform-meta
  table.
\<close>

definition input_key :: "string list \<Rightarrow> ('v, 't) InputTable \<Rightarrow> 'v list \<Rightarrow> 'v option list" where
  "input_key keys dt vals = map (row_col (primary_keys dt) (map Some vals)) keys"

definition candidate_keys ::
  "string list \<Rightarrow> ('v, 't) InputTable \<Rightarrow> ('v, 't) TransformMetaTable \<Rightarrow> 'v option list set"
where
  "candidate_keys keys dt tr_tbl =
     (\<lambda>(vals, m). input_key keys dt vals) ` set (sql_table dt)
     \<union> (\<lambda>(vals, t). map Some vals) ` set tr_tbl"

text \<open>The \<open>update_ts\<close> of the input meta rows that match a tuple.\<close>

definition matching_update_ts ::
  "string list \<Rightarrow> ('v, 't) InputTable \<Rightarrow> 'v option list \<Rightarrow> 't set"
where
  "matching_update_ts keys dt k =
     {update_ts m | vals m. (vals, m) \<in> set (sql_table dt) \<and> input_key keys dt vals = k}"

text \<open>
  A tuple is stale when the transform-meta table has no row for it, or its row is a
  success and the maximum \<open>update_ts\<close> of the matching input meta rows is greater than
  its \<open>process_ts\<close>, or its row is not a success.
\<close>

definition stale ::
  "string list \<Rightarrow> ('v, 't::linorder) InputTable \<Rightarrow> ('v, 't) TransformMetaTable
     \<Rightarrow> 'v option list \<Rightarrow> bool"
where
  "stale keys dt tr_tbl k =
     (case map_of (map (\<lambda>(vals, t). (map Some vals, t)) tr_tbl) k of
        None \<Rightarrow> True
      | Some t \<Rightarrow>
          (is_success t \<and> matching_update_ts keys dt k \<noteq> {}
             \<and> Max (matching_update_ts keys dt k) > tr_process_ts t)
          \<or> \<not> is_success t)"

chapter \<open>Verified properties\<close>

section \<open>Properties of the driver\<close>

lemma run_steps_changelist_loop_inv:
  assumes "run_steps_changelist_loop steps ds cur it = (ds', cur', n, exc)"
    and "it \<le> 100"
  shows "it \<le> n \<and> n \<le> 100
    \<and> (\<forall>k < n - it. \<exists>s. changes_after steps k (ds, cur) = Some s \<and> \<not> ChangeList_empty (snd s))
    \<and> (exc = None \<longrightarrow>
          changes_after steps (n - it) (ds, cur) = Some (ds', cur')
          \<and> (n < 100 \<longrightarrow> ChangeList_empty cur'))
    \<and> (\<forall>e. exc = Some e \<longrightarrow>
          n < 100 \<and> \<not> ChangeList_empty cur'
          \<and> (\<exists>ds0. changes_after steps (n - it) (ds, cur) = Some (ds0, cur')
                \<and> run_steps_pass steps ds0 cur' ChangeList_new = (ds', Inl e)))"
  using assms
proof (induction steps ds cur it arbitrary: ds' cur' n exc rule: run_steps_changelist_loop.induct)
  case (1 steps ds cur it)
  show ?case
  proof (cases "\<not> ChangeList_empty cur \<and> it < 100")
    case False
    with "1.prems" have "ds' = ds" "cur' = cur" "n = it" "exc = None"
      by (simp_all add: run_steps_changelist_loop.simps [of steps ds cur it])
    with False "1.prems"(2) show ?thesis by auto
  next
    case True
    obtain ds1 res where pass: "run_steps_pass steps ds cur ChangeList_new = (ds1, res)"
      by (cases "run_steps_pass steps ds cur ChangeList_new")
    show ?thesis
    proof (cases res)
      case (Inl e)
      with True pass "1.prems"(1) have "ds' = ds1" "cur' = cur" "n = it" "exc = Some e"
        by (simp_all add: run_steps_changelist_loop.simps [of steps ds cur it])
      with True pass Inl show ?thesis by simp
    next
      case (Inr nxt)
      with True pass "1.prems"(1)
      have rec: "run_steps_changelist_loop steps ds1 nxt (it + 1) = (ds', cur', n, exc)"
        by (simp add: run_steps_changelist_loop.simps [of steps ds cur it])
      from True have le: "it + 1 \<le> 100" by simp
      have pass': "(ds1, res) = run_steps_pass steps ds cur ChangeList_new"
        using pass by simp
      from "1.IH" [OF True pass' Inr rec le]
      have ih: "it + 1 \<le> n" "n \<le> 100"
        "\<forall>k < n - (it + 1). \<exists>s. changes_after steps k (ds1, nxt) = Some s
            \<and> \<not> ChangeList_empty (snd s)"
        "exc = None \<longrightarrow>
          changes_after steps (n - (it + 1)) (ds1, nxt) = Some (ds', cur')
          \<and> (n < 100 \<longrightarrow> ChangeList_empty cur')"
        "\<forall>e. exc = Some e \<longrightarrow>
          n < 100 \<and> \<not> ChangeList_empty cur'
          \<and> (\<exists>ds0. changes_after steps (n - (it + 1)) (ds1, nxt) = Some (ds0, cur')
                \<and> run_steps_pass steps ds0 cur' ChangeList_new = (ds', Inl e))"
        by simp_all
      have step: "one_iteration steps (ds, cur) = Some (ds1, nxt)"
        by (simp add: one_iteration_def pass Inr)
      have shift: "changes_after steps (Suc k) (ds, cur) = changes_after steps k (ds1, nxt)" for k
        by (simp add: step)
      from ih(1) have nsplit: "n - it = Suc (n - (it + 1))" by simp
      have b: "\<exists>s. changes_after steps k (ds, cur) = Some s \<and> \<not> ChangeList_empty (snd s)"
        if "k < n - it" for k
      proof (cases k)
        case 0
        with True show ?thesis by simp
      next
        case (Suc j)
        with that nsplit have "j < n - (it + 1)" by simp
        with ih(3) Suc shift show ?thesis by simp
      qed
      from ih(1,2,4,5) b show ?thesis
        by (simp only: nsplit shift) simp
    qed
  qed
qed


text \<open>
  C7, as stated, fails on the code for a step that raises.  The one step of the list
  does not override \<open>get_change_list_process_ids\<close>, so its \<open>run_changelist\<close> raises
  \<open>NotImplementedError\<close>; the seed change list has one entry.  The loop is left by the
  exception in its first iteration: the counter is 0, below the cap, and the current
  change list is not empty.
\<close>

theorem run_steps_changelist_left_by_exception:
  "run_steps_changelist (0::nat) [run_changelist_base] [(''t'', [1::nat])]
     = (0, [(''t'', [1])], 0, Some NotImplementedError)
   \<and> (0::nat) < 100
   \<and> \<not> ChangeList_empty [(''t'', [1::nat])]"
  by (simp add: run_steps_changelist_def run_steps_changelist_loop.simps
      run_changelist_base_def ChangeList_empty_def ChangeList_new_def)

text \<open>
  C7, amended.  For every data store, list of steps and seed change list, the loop of
  \<open>run_steps_changelist\<close> completes \<open>n \<le> 100\<close> iterations, none of which raised and
  before each of which the change list was non-empty.  If no exception escapes, the
  state the loop ends in is the one reached by those \<open>n\<close> iterations, and when the
  loop ends before the cap (\<open>n < 100\<close>) the change list accumulated for the next
  iteration is empty: the loop runs for exactly as long as the current change list is
  non-empty, up to the cap.  If a step raises, the exception is not caught: it ends the
  loop in iteration \<open>n + 1 \<le> 100\<close>, with the current change list non-empty.
\<close>

theorem run_steps_changelist_cap:
  assumes "run_steps_changelist ds steps changelist = (ds', cur', n, exc)"
  shows "n \<le> 100
    \<and> (\<forall>k < n. \<exists>s. changes_after steps k (ds, changelist) = Some s
                    \<and> \<not> ChangeList_empty (snd s))
    \<and> (exc = None \<longrightarrow>
          changes_after steps n (ds, changelist) = Some (ds', cur')
          \<and> (n < 100 \<longrightarrow> ChangeList_empty cur'))
    \<and> (\<forall>e. exc = Some e \<longrightarrow>
          n < 100 \<and> \<not> ChangeList_empty cur'
          \<and> (\<exists>ds0. changes_after steps n (ds, changelist) = Some (ds0, cur')
                \<and> run_steps_pass steps ds0 cur' ChangeList_new = (ds', Inl e)))"
  using run_steps_changelist_loop_inv [of steps ds changelist 0 ds' cur' n exc] assms
  by (simp add: run_steps_changelist_def)

theorem run_steps_changelist_cap_witness:
  "run_steps_changelist (0::nat) [\<lambda>ds cl. (Suc ds, Inr ChangeList_new)] [(''t'', [1::nat])]
     = (1, [], 1, None)
   \<and> (1::nat) \<le> 100
   \<and> changes_after [\<lambda>ds cl. (Suc ds, Inr ChangeList_new)] 0 (0::nat, [(''t'', [1::nat])])
       = Some (0, [(''t'', [1])])
   \<and> \<not> ChangeList_empty [(''t'', [1::nat])]
   \<and> changes_after [\<lambda>ds cl. (Suc ds, Inr ChangeList_new)] 1 (0::nat, [(''t'', [1::nat])])
       = Some (1, [])
   \<and> ChangeList_empty ([] :: nat ChangeList)
   \<and> run_steps_changelist (0::nat)
        [\<lambda>ds cl. (Suc ds, Inr ChangeList_new), run_changelist_base] [(''t'', [1::nat])]
     = (1, [(''t'', [1])], 0, Some NotImplementedError)
   \<and> run_steps_pass [\<lambda>ds cl. (Suc ds, Inr ChangeList_new), run_changelist_base] (0::nat)
        [(''t'', [1::nat])] ChangeList_new
     = (1, Inl NotImplementedError)"
proof -
  let ?ok = "\<lambda>(ds::nat) (cl::nat ChangeList). (Suc ds, Inr ChangeList_new :: py_error + nat ChangeList)"
  let ?cl = "[(''t'', [1::nat])]"
  have run: "run_steps_changelist (0::nat) [?ok] ?cl = (1, [], 1, None)"
    by (simp add: run_steps_changelist_def run_steps_changelist_loop.simps
        ChangeList_empty_def ChangeList_new_def)
  have run2: "run_steps_changelist (0::nat) [?ok, run_changelist_base] ?cl
      = (1, ?cl, 0, Some NotImplementedError)"
    by (simp add: run_steps_changelist_def run_steps_changelist_loop.simps
        run_changelist_base_def ChangeList_empty_def ChangeList_new_def)
  from run_steps_changelist_cap [OF run]
  have a: "changes_after [?ok] 0 (0, ?cl) = Some (0, ?cl)"
    and b: "changes_after [?ok] 1 (0, ?cl) = Some (1, [])"
    and c: "ChangeList_empty ([] :: nat ChangeList)"
    by simp_all
  from run_steps_changelist_cap [OF run2]
  have d: "\<not> ChangeList_empty ?cl"
    and e: "run_steps_pass [?ok, run_changelist_base] (0::nat) ?cl ChangeList_new
        = (1, Inl NotImplementedError)"
    by simp_all
  from run run2 a b c d e show ?thesis by simp
qed

section \<open>Properties of the default transform keys\<close>

lemma set_intersection_set:
  "set_intersection (map schema_keys mts) = Inr ks \<Longrightarrow> set ks = common_pk_names mts"
  by (cases mts) (auto simp: common_pk_names_def list_all_iff)

lemma set_intersection_ok: "mts \<noteq> [] \<Longrightarrow> \<exists>ks. set_intersection (map schema_keys mts) = Inr ks"
  by (cases mts) auto

lemma all_keys_dict_dom: "dom (all_keys_dict schemas) = (\<Union>s \<in> set schemas. set (schema_keys s))"
  by (auto simp: all_keys_dict_def schema_keys_def dom_map_of_conv_image_fst image_iff) blast+

lemma all_keys_dict_name: "all_keys_dict schemas k = Some c \<Longrightarrow> col_name c = k"
  by (auto simp: all_keys_dict_def dest!: map_of_SomeD)

lemma lookup_all_ok:
  "set ks \<subseteq> dom d \<Longrightarrow> \<exists>cols. lookup_all d ks = Inr cols"
  by (induction ks) (auto split: option.splits sum.splits)

lemma lookup_all_names:
  "lookup_all (all_keys_dict schemas) ks = Inr cols \<Longrightarrow> map col_name cols = ks"
  by (induction ks arbitrary: cols) (auto split: option.splits sum.splits dest: all_keys_dict_name)


lemma set_intersection_two:
  "set_intersection [ik, ok] = Inr (remdups (filter (\<lambda>k. k \<in> set ok) ik))"
  by simp

lemma cts_no_outputs:
  assumes "input_mts \<noteq> []" "set_intersection (map schema_keys input_mts) = Inr ik"
  shows "compute_transform_schema input_mts [] None =
     (if ik = [] then Inl AssertionError
      else case lookup_all (all_keys_dict input_mts) ik of
             Inl e \<Rightarrow> Inl e | Inr cols \<Rightarrow> Inr (ik, cols))"
  using assms by (simp add: compute_transform_schema_def Let_def del: set_intersection.simps)

lemma cts_outputs:
  assumes "input_mts \<noteq> []" "output_mts \<noteq> []"
    "set_intersection (map schema_keys input_mts) = Inr ik"
    "set_intersection (map schema_keys output_mts) = Inr ok"
  shows "compute_transform_schema input_mts output_mts None =
     (if ik = [] \<or> ok = [] \<or> filter (\<lambda>k. k \<in> set ok) ik = [] then Inl AssertionError
      else case lookup_all (all_keys_dict (input_mts @ output_mts))
                  (remdups (filter (\<lambda>k. k \<in> set ok) ik)) of
             Inl e \<Rightarrow> Inl e
           | Inr cols \<Rightarrow> Inr (remdups (filter (\<lambda>k. k \<in> set ok) ik), cols))"
  using assms
  by (simp add: compute_transform_schema_def set_intersection_two Let_def
      del: set_intersection.simps)

lemma common_pk_names_dom:
  "mts \<noteq> [] \<Longrightarrow> common_pk_names mts \<subseteq> dom (all_keys_dict (mts @ others))"
  by (cases mts) (auto simp: all_keys_dict_dom common_pk_names_def)

lemma cts_fail:
  assumes "\<not> transform_keys_ok input_mts output_mts"
  shows "compute_transform_schema input_mts output_mts None = Inl AssertionError"
proof (cases "input_mts = []")
  case True then show ?thesis by (simp add: compute_transform_schema_def)
next
  case False
  then obtain ik where ik: "set_intersection (map schema_keys input_mts) = Inr ik"
    using set_intersection_ok by blast
  note iks = set_intersection_set [OF ik]
  show ?thesis
  proof (cases "output_mts = []")
    case True
    with assms False iks have "ik = []"
      by (auto simp: transform_keys_ok_def common_pk_names_def)
    with cts_no_outputs [OF False ik] True show ?thesis by simp
  next
    case nonempty: False
    then obtain ok where ok: "set_intersection (map schema_keys output_mts) = Inr ok"
      using set_intersection_ok by blast
    note oks = set_intersection_set [OF ok]
    have both: "set (filter (\<lambda>k. k \<in> set ok) ik)
        = common_pk_names input_mts \<inter> common_pk_names output_mts"
      using iks oks by auto
    from assms False have "common_pk_names input_mts = {} \<or> common_pk_names output_mts = {}
        \<or> common_pk_names input_mts \<inter> common_pk_names output_mts = {}"
      by (simp add: transform_keys_ok_def)
    then have "ik = [] \<or> ok = [] \<or> filter (\<lambda>k. k \<in> set ok) ik = []"
      unfolding iks [symmetric] oks [symmetric] both [symmetric]
      by (auto simp: filter_empty_conv)
    with cts_outputs [OF False nonempty ik ok] show ?thesis by simp
  qed
qed

lemma cts_success:
  assumes "transform_keys_ok input_mts output_mts"
  shows "\<exists>keys schema. compute_transform_schema input_mts output_mts None = Inr (keys, schema)
     \<and> set keys = common_pk_names input_mts \<inter> common_pk_names output_mts
     \<and> schema_keys schema = keys"
proof -
  from assms have ne: "input_mts \<noteq> []" by (simp add: transform_keys_ok_def)
  then obtain ik where ik: "set_intersection (map schema_keys input_mts) = Inr ik"
    using set_intersection_ok by blast
  note iks = set_intersection_set [OF ik]
  from assms iks have ik_ne: "ik \<noteq> []" by (auto simp: transform_keys_ok_def)
  show ?thesis
  proof (cases "output_mts = []")
    case True
    have "set ik \<subseteq> dom (all_keys_dict input_mts)"
      using common_pk_names_dom [OF ne, of "[]"] iks by simp
    then obtain cols where cols: "lookup_all (all_keys_dict input_mts) ik = Inr cols"
      using lookup_all_ok by blast
    from lookup_all_names [OF cols] have "schema_keys cols = ik" by (simp add: schema_keys_def)
    with cts_no_outputs [OF ne ik] ik_ne cols True iks show ?thesis
      by (simp add: common_pk_names_def)
  next
    case nonempty: False
    then obtain ok where ok: "set_intersection (map schema_keys output_mts) = Inr ok"
      using set_intersection_ok by blast
    note oks = set_intersection_set [OF ok]
    let ?io = "remdups (filter (\<lambda>k. k \<in> set ok) ik)"
    have both: "set ?io = common_pk_names input_mts \<inter> common_pk_names output_mts"
      using iks oks by auto
    from assms have "common_pk_names input_mts \<noteq> {}" "common_pk_names output_mts \<noteq> {}"
      "common_pk_names input_mts \<inter> common_pk_names output_mts \<noteq> {}"
      by (simp_all add: transform_keys_ok_def)
    with iks oks both have "set ik \<noteq> {}" "set ok \<noteq> {}" "set ?io \<noteq> {}"
      by metis+
    then have nes: "ik \<noteq> []" "ok \<noteq> []" "filter (\<lambda>k. k \<in> set ok) ik \<noteq> []"
      by (auto simp: filter_empty_conv)
    have "set ?io \<subseteq> dom (all_keys_dict (input_mts @ output_mts))"
      using common_pk_names_dom [OF ne, of output_mts] both by auto
    then obtain cols where cols:
      "lookup_all (all_keys_dict (input_mts @ output_mts)) ?io = Inr cols"
      using lookup_all_ok by blast
    from lookup_all_names [OF cols] have "schema_keys cols = ?io" by (simp add: schema_keys_def)
    with cts_outputs [OF ne nonempty ik ok] nes cols both show ?thesis by simp
  qed
qed

text \<open>
  C9.  For a step that declares no transform keys, \<open>compute_transform_schema\<close> returns
  keys whose set is the intersection of the primary-key names common to all inputs with
  those common to all outputs (together with their columns), and it does so exactly when
  there is an input and the intersection over the inputs, the intersection over the
  outputs and the intersection of the two are non-empty; in every other case the
  construction fails with an \<open>AssertionError\<close>.  A step without outputs has no
  output-side constraint: the intersection over an empty list of tables is the set of all
  names, and the code returns the intersection over the inputs.
\<close>

theorem compute_transform_schema_default_keys:
  "(transform_keys_ok input_mts output_mts \<longrightarrow>
      (\<exists>keys schema.
         compute_transform_schema input_mts output_mts None = Inr (keys, schema)
         \<and> set keys = common_pk_names input_mts \<inter> common_pk_names output_mts
         \<and> schema_keys schema = keys))
   \<and> (input_mts = [] \<or> common_pk_names input_mts = {} \<or> common_pk_names output_mts = {}
        \<or> common_pk_names input_mts \<inter> common_pk_names output_mts = {} \<longrightarrow>
      compute_transform_schema input_mts output_mts None = Inl AssertionError)"
proof (intro conjI impI)
  assume "transform_keys_ok input_mts output_mts"
  then show "\<exists>keys schema.
         compute_transform_schema input_mts output_mts None = Inr (keys, schema)
         \<and> set keys = common_pk_names input_mts \<inter> common_pk_names output_mts
         \<and> schema_keys schema = keys"
    by (rule cts_success)
next
  assume "input_mts = [] \<or> common_pk_names input_mts = {} \<or> common_pk_names output_mts = {}
        \<or> common_pk_names input_mts \<inter> common_pk_names output_mts = {}"
  then have "\<not> transform_keys_ok input_mts output_mts"
    by (auto simp: transform_keys_ok_def)
  then show "compute_transform_schema input_mts output_mts None = Inl AssertionError"
    by (rule cts_fail)
qed

theorem compute_transform_schema_default_keys_witness:
  "transform_keys_ok
      [[\<lparr>col_name = ''id'', col_type = SAString\<rparr>, \<lparr>col_name = ''a'', col_type = SAInteger\<rparr>]]
      [[\<lparr>col_name = ''id'', col_type = SAString\<rparr>]]
   \<and> (\<exists>keys schema.
         compute_transform_schema
           [[\<lparr>col_name = ''id'', col_type = SAString\<rparr>, \<lparr>col_name = ''a'', col_type = SAInteger\<rparr>]]
           [[\<lparr>col_name = ''id'', col_type = SAString\<rparr>]] None = Inr (keys, schema)
         \<and> set keys = {''id''} \<and> schema_keys schema = keys)
   \<and> common_pk_names [[\<lparr>col_name = ''a'', col_type = SAInteger\<rparr>]]
        \<inter> common_pk_names [[\<lparr>col_name = ''id'', col_type = SAString\<rparr>]] = {}
   \<and> compute_transform_schema [[\<lparr>col_name = ''a'', col_type = SAInteger\<rparr>]]
        [[\<lparr>col_name = ''id'', col_type = SAString\<rparr>]] None = Inl AssertionError"
proof -
  let ?i = "[[\<lparr>col_name = ''id'', col_type = SAString\<rparr>, \<lparr>col_name = ''a'', col_type = SAInteger\<rparr>]]"
  let ?o = "[[\<lparr>col_name = ''id'', col_type = SAString\<rparr>]]"
  let ?a = "[[\<lparr>col_name = ''a'', col_type = SAInteger\<rparr>]]"
  have ok: "transform_keys_ok ?i ?o"
    by (simp add: transform_keys_ok_def common_pk_names_def schema_keys_def)
  have inter: "common_pk_names ?i \<inter> common_pk_names ?o = {''id''}"
    by (simp add: common_pk_names_def schema_keys_def)
  have disj: "common_pk_names ?a \<inter> common_pk_names ?o = {}"
    by (simp add: common_pk_names_def schema_keys_def)
  from compute_transform_schema_default_keys [of ?i ?o] ok inter
  have one: "\<exists>keys schema. compute_transform_schema ?i ?o None = Inr (keys, schema)
         \<and> set keys = {''id''} \<and> schema_keys schema = keys"
    by simp
  from compute_transform_schema_default_keys [of ?a ?o] disj
  have two: "compute_transform_schema ?a ?o None = Inl AssertionError"
    by simp
  from ok one disj two show ?thesis by blast
qed

section \<open>Properties of the c12n_pipe data table\<close>

lemma map_of_read_rows:
  "map_of (read_rows tbl (Some ix)) i = (if i \<in> set ix then map_of tbl i else None)"
  by (induction tbl) (auto simp: read_rows_def)

lemma map_of_delete_rows:
  "map_of (delete_rows tbl ix) i = (if i \<in> set ix then None else map_of tbl i)"
  by (induction tbl) (auto simp: delete_rows_def)

lemma in_df_index_iff: "i \<in> set (df_index df) \<longleftrightarrow> map_of df i \<noteq> None"
  by (simp add: df_index_def map_of_eq_None_iff)

lemma map_of_update_rows:
  "map_of (update_rows tbl df) i =
     (if i \<in> set (df_index df) then map_of df i else map_of tbl i)"
proof (cases "i \<in> set (df_index df)")
  case True
  then show ?thesis
    by (simp add: update_rows_def map_add_def map_of_delete_rows split: option.splits)
next
  case False
  then have "map_of df i = None" by (simp add: in_df_index_iff)
  with False show ?thesis
    by (simp add: update_rows_def map_add_def map_of_delete_rows split: option.splits)
qed

lemma map_of_make_new_metadata_df:
  "map_of (make_new_metadata_df h now df) i =
     map_option (\<lambda>r. \<lparr>hash = h i r, create_ts = now, update_ts = now,
                        process_ts = now, delete_ts = None\<rparr>) (map_of df i)"
  by (induction df) (auto simp: make_new_metadata_df_def)

lemma df_index_make_new_metadata_df [simp]:
  "df_index (make_new_metadata_df h now df) = df_index df"
  by (simp add: df_index_def make_new_metadata_df_def comp_def case_prod_unfold)

lemma map_of_loc_assign:
  "map_of (loc_assign copy idx src dst) i =
     (case map_of dst i of
        None \<Rightarrow> None
      | Some m \<Rightarrow> Some (if i \<in> set idx
                        then (case map_of src i of Some e \<Rightarrow> copy e m | None \<Rightarrow> m)
                        else m))"
proof (induction dst)
  case Nil
  show ?case by (simp add: loc_assign_def)
next
  case (Cons a dst)
  obtain j m where a: "a = (j, m)" by (cases a)
  from Cons show ?case
    by (cases "map_of src j") (simp_all add: loc_assign_def a)
qed

lemma df_index_loc_assign [simp]: "df_index (loc_assign copy idx src dst) = df_index dst"
proof (induction dst)
  case Nil
  show ?case by (simp add: loc_assign_def df_index_def)
next
  case (Cons a dst)
  obtain j m where a: "a = (j, m)" by (cases a)
  from Cons show ?case
    by (cases "map_of src j") (simp_all add: loc_assign_def df_index_def a)
qed

lemma set_index_intersection [simp]: "set (index_intersection a b) = set a \<inter> set b"
  by (auto simp: index_intersection_def)

lemma set_index_difference [simp]: "set (index_difference a b) = set a - set b"
  by (auto simp: index_difference_def)

lemma set_index_union [simp]: "set (index_union a b) = set a \<union> set b"
  by (auto simp: index_union_def)

lemma store_chunk_table_meta:
  assumes "data_df \<noteq> []"
  shows "table_meta (fst (store_chunk hash_row dt data_df now)) =
     insert_rows (delete_rows (table_meta dt) (df_index data_df))
       (loc_assign copy_update_ts
          (index_difference (df_index (get_metadata dt (Some (df_index data_df))))
             (changed_idx_of hash_row dt data_df now))
          (get_metadata dt (Some (df_index data_df)))
          (loc_assign copy_create_ts (changed_idx_of hash_row dt data_df now)
             (get_metadata dt (Some (df_index data_df)))
             (make_new_metadata_df hash_row now data_df)))"
proof -
  from assms have "make_new_metadata_df hash_row now data_df \<noteq> []"
    by (simp add: make_new_metadata_df_def)
  then show ?thesis
    by (simp add: store_chunk_def Let_def changed_idx_of_def)
qed

lemma store_chunk_meta_of_chunk_row:
  assumes "map_of data_df i = Some r"
  shows "meta_of (fst (store_chunk hash_row dt data_df now)) i
         = Some (written_meta (meta_of dt i) (hash_row i r) now)"
proof -
  from assms have i_in: "i \<in> set (df_index data_df)" by (simp add: in_df_index_iff)
  then have ne: "data_df \<noteq> []" by (auto simp: df_index_def)
  let ?ex = "get_metadata dt (Some (df_index data_df))"
  let ?new = "make_new_metadata_df hash_row now data_df"
  let ?changed = "changed_idx_of hash_row dt data_df now"
  have ex: "map_of ?ex i = meta_of dt i"
    using i_in by (simp add: get_metadata_def map_of_read_rows meta_of_def)
  have new: "map_of ?new i = Some \<lparr>hash = hash_row i r, create_ts = now, update_ts = now,
                        process_ts = now, delete_ts = None\<rparr>"
    using assms by (simp add: map_of_make_new_metadata_df)
  have changed: "i \<in> set ?changed \<longleftrightarrow>
      (case meta_of dt i of None \<Rightarrow> False | Some e \<Rightarrow> hash e \<noteq> hash_row i r)"
    using i_in ex new
    by (auto simp: changed_idx_of_def in_df_index_iff hash_differs_def split: option.splits)
  have not_changed: "i \<in> set (index_difference (df_index ?ex) ?changed) \<longleftrightarrow>
      (case meta_of dt i of None \<Rightarrow> False | Some e \<Rightarrow> hash e = hash_row i r)"
    using changed ex by (auto simp: in_df_index_iff split: option.splits)
  have "meta_of (fst (store_chunk hash_row dt data_df now)) i =
      map_of (loc_assign copy_update_ts (index_difference (df_index ?ex) ?changed) ?ex
          (loc_assign copy_create_ts ?changed ?ex ?new)) i"
    using i_in
    by (simp add: meta_of_def store_chunk_table_meta [OF ne] insert_rows_def map_of_update_rows)
  also have "\<dots> = Some (written_meta (meta_of dt i) (hash_row i r) now)"
    unfolding map_of_loc_assign new ex changed not_changed
    by (cases "meta_of dt i")
      (simp_all add: written_meta_def copy_create_ts_def copy_update_ts_def)
  finally show ?thesis .
qed

lemma store_chunk_meta_of_other_row:
  assumes "i \<notin> set (df_index data_df)"
  shows "meta_of (fst (store_chunk hash_row dt data_df now)) i = meta_of dt i"
  using assms
  by (simp add: store_chunk_def Let_def meta_of_def insert_rows_def map_of_update_rows
      map_of_delete_rows)

lemma sync_meta_cases:
  "sync_meta dt chunks processed_idx =
     (if set (df_index (get_metadata dt processed_idx)) - set (foldl index_union [] chunks) = {}
      then dt
      else \<lparr>table_meta = delete_rows (table_meta dt)
              (index_difference (df_index (get_metadata dt processed_idx))
                 (foldl index_union [] chunks)),
            table_data = delete_rows (table_data dt)
              (index_difference (df_index (get_metadata dt processed_idx))
                 (foldl index_union [] chunks)),
            event_log = event_log dt @
              [(0, 0, length (index_difference (df_index (get_metadata dt processed_idx))
                 (foldl index_union [] chunks)))]\<rparr>)"
proof -
  let ?d = "index_difference (df_index (get_metadata dt processed_idx))
      (foldl index_union [] chunks)"
  have "(?d = []) \<longleftrightarrow>
      set (df_index (get_metadata dt processed_idx)) - set (foldl index_union [] chunks) = {}"
    using set_index_difference [of "df_index (get_metadata dt processed_idx)"
        "foldl index_union [] chunks"]
    by (metis set_empty)
  then show ?thesis by (simp add: sync_meta_def Let_def)
qed

lemma meta_of_sync_meta:
  "meta_of (sync_meta dt chunks processed_idx) i =
     (if i \<in> set (df_index (get_metadata dt processed_idx)) - set (foldl index_union [] chunks)
      then None else meta_of dt i)"
  by (auto simp: sync_meta_cases meta_of_def map_of_delete_rows)

lemma data_of_sync_meta:
  "data_of (sync_meta dt chunks processed_idx) i =
     (if i \<in> set (df_index (get_metadata dt processed_idx)) - set (foldl index_union [] chunks)
      then None else data_of dt i)"
  by (auto simp: sync_meta_cases data_of_def map_of_delete_rows)

text \<open>
  C2.  The claim fails on the code for a common row whose hash is unchanged.  A table
  holds the meta row of \<open>''a''\<close>, created, updated and processed at time 1, with the
  hash of the row \<open>r\<close>.  Ingesting the same row at time 2 writes a meta row whose
  \<open>create_ts\<close> is 2: the existing \<open>create_ts\<close> is not carried forward (the existing
  \<open>update_ts\<close> is).
\<close>

theorem store_chunk_unchanged_row_loses_create_ts:
  "meta_of (fst (store_chunk hash_row
       \<lparr>table_meta = [(''a'', \<lparr>hash = hash_row ''a'' r, create_ts = 1, update_ts = 1,
                               process_ts = 1, delete_ts = None\<rparr>)],
        table_data = [(''a'', r)], event_log = []\<rparr>
       [(''a'', r)] (2::nat))) ''a''
   = Some \<lparr>hash = hash_row ''a'' r, create_ts = 2, update_ts = 1, process_ts = 2,
           delete_ts = None\<rparr>"
  by (simp add: store_chunk_meta_of_chunk_row, simp add: written_meta_def meta_of_def)

text \<open>
  C3.  The claim fails on the code after two ingests of the same row.  From the empty
  table, the row \<open>''a''\<close> is ingested at time 1 and again, unchanged, at time 2.  Its meta
  row then has no \<open>delete_ts\<close>, \<open>create_ts = 2\<close> and \<open>update_ts = 1\<close>, so
  \<open>create_ts \<le> update_ts\<close> does not hold.
\<close>

theorem store_chunk_twice_breaks_timestamp_order:
  "(case meta_of (fst (store_chunk hash_row
            (fst (store_chunk hash_row empty_table [(''a'', r)] (1::nat)))
            [(''a'', r)] 2)) ''a'' of
      None \<Rightarrow> False
    | Some m \<Rightarrow> delete_ts m = None \<and> create_ts m = 2 \<and> update_ts m = 1
        \<and> process_ts m = 2 \<and> \<not> create_ts m \<le> update_ts m)"
  by (simp add: store_chunk_meta_of_chunk_row,
      simp add: written_meta_def meta_of_def empty_table_def)

text \<open>
  C4.  The claim fails on the code in its last part.  From the empty table, the chunk
  with the single row \<open>''a''\<close> is ingested at time 1 and again at time 2.  The second
  ingest leaves \<open>hash\<close> and \<open>update_ts\<close> as they were and moves \<open>process_ts\<close> to 2,
  but it also moves \<open>create_ts\<close> from 1 to 2: \<open>process_ts\<close> is not the only column
  that advances.
\<close>

theorem store_chunk_twice_advances_create_ts:
  "meta_of (fst (store_chunk hash_row empty_table [(''a'', r)] (1::nat))) ''a''
     = Some \<lparr>hash = hash_row ''a'' r, create_ts = 1, update_ts = 1, process_ts = 1,
             delete_ts = None\<rparr>
   \<and> meta_of (fst (store_chunk hash_row
            (fst (store_chunk hash_row empty_table [(''a'', r)] (1::nat)))
            [(''a'', r)] 2)) ''a''
     = Some \<lparr>hash = hash_row ''a'' r, create_ts = 2, update_ts = 1, process_ts = 2,
             delete_ts = None\<rparr>"
  by (simp add: store_chunk_meta_of_chunk_row,
      simp add: written_meta_def meta_of_def empty_table_def)

text \<open>
  C5.  The claim fails on the code.  A table holds the rows \<open>''a''\<close> and \<open>''b''\<close>; the
  sync pass is given the one chunk \<open>[''a'']\<close>, so \<open>''b''\<close> has vanished.  After
  \<open>sync_meta\<close> the data row of \<open>''b''\<close> is gone and so is its meta row: the table has no
  meta row for \<open>''b''\<close> at all, rather than one with \<open>delete_ts\<close> set.
\<close>

theorem sync_meta_erases_meta_row:
  "sync_meta
     \<lparr>table_meta = [(''a'', \<lparr>hash = 1, create_ts = 1, update_ts = 1, process_ts = 1,
                             delete_ts = None\<rparr>),
                    (''b'', \<lparr>hash = 2, create_ts = 1, update_ts = 1, process_ts = 1,
                             delete_ts = None\<rparr>)],
      table_data = [(''a'', x), (''b'', y)], event_log = []\<rparr>
     [[''a'']] None
   = \<lparr>table_meta = [(''a'', \<lparr>hash = 1, create_ts = 1::nat, update_ts = 1, process_ts = 1,
                             delete_ts = None\<rparr>)],
      table_data = [(''a'', x)], event_log = [(0, 0, 1)]\<rparr>"
  by (simp add: sync_meta_def Let_def get_metadata_def read_rows_def df_index_def
      index_difference_def index_union_def delete_rows_def)

text \<open>
  Every row of an ingested chunk gets the meta row \<open>written_meta\<close>: a new label gets the
  three timestamps \<open>now\<close>; a label whose stored hash differs keeps its \<open>create_ts\<close> and
  gets \<open>update_ts = now\<close>; a label whose stored hash is equal keeps its \<open>update_ts\<close>
  and gets \<open>create_ts = now\<close>.  Rows outside the chunk keep their meta row.
\<close>

theorem store_chunk_written_meta:
  "(map_of data_df i = Some r \<longrightarrow>
      meta_of (fst (store_chunk hash_row dt data_df now)) i
        = Some (written_meta (meta_of dt i) (hash_row i r) now))
   \<and> (i \<notin> set (df_index data_df) \<longrightarrow>
      meta_of (fst (store_chunk hash_row dt data_df now)) i = meta_of dt i)"
  by (simp add: store_chunk_meta_of_chunk_row store_chunk_meta_of_other_row)

theorem store_chunk_written_meta_witness:
  "map_of [(''a'', 7::nat), (''b'', 8)] ''b'' = Some 8
   \<and> meta_of (fst (store_chunk (\<lambda>i r. r)
        \<lparr>table_meta = [(''b'', \<lparr>hash = 5, create_ts = 1::nat, update_ts = 2, process_ts = 3,
                               delete_ts = None\<rparr>)],
         table_data = [(''b'', 5)], event_log = []\<rparr>
        [(''a'', 7), (''b'', 8)] 4)) ''b''
     = Some \<lparr>hash = 8, create_ts = 1, update_ts = 4, process_ts = 4, delete_ts = None\<rparr>
   \<and> ''c'' \<notin> set (df_index [(''a'', 7::nat), (''b'', 8)])
   \<and> meta_of (fst (store_chunk (\<lambda>i r. r)
        \<lparr>table_meta = [(''b'', \<lparr>hash = 5, create_ts = 1::nat, update_ts = 2, process_ts = 3,
                               delete_ts = None\<rparr>)],
         table_data = [(''b'', 5)], event_log = []\<rparr>
        [(''a'', 7), (''b'', 8)] 4)) ''c'' = None"
  using store_chunk_written_meta [of "[(''a'', 7::nat), (''b'', 8)]" "''b''" 8 "\<lambda>i r. r"
      "\<lparr>table_meta = [(''b'', \<lparr>hash = 5, create_ts = 1::nat, update_ts = 2, process_ts = 3,
                               delete_ts = None\<rparr>)],
         table_data = [(''b'', 5)], event_log = []\<rparr>" 4]
    store_chunk_written_meta [of "[(''a'', 7::nat), (''b'', 8)]" "''c''" 8 "\<lambda>i r. r"
      "\<lparr>table_meta = [(''b'', \<lparr>hash = 5, create_ts = 1::nat, update_ts = 2, process_ts = 3,
                               delete_ts = None\<rparr>)],
         table_data = [(''b'', 5)], event_log = []\<rparr>" 4]
  by (simp add: df_index_def, simp add: written_meta_def meta_of_def)

text \<open>
  Ingesting the same chunk twice: after the second ingest every row of the chunk has the
  hash and the \<open>update_ts\<close> it had after the first, and the \<open>process_ts\<close> of the second
  ingest.
\<close>

theorem store_chunk_reingest_keeps_hash_and_update_ts:
  assumes "map_of data_df i = Some r"
  shows "\<exists>m1 m2.
      meta_of (fst (store_chunk hash_row dt data_df now1)) i = Some m1
    \<and> meta_of (fst (store_chunk hash_row (fst (store_chunk hash_row dt data_df now1))
                    data_df now2)) i = Some m2
    \<and> hash m2 = hash m1 \<and> update_ts m2 = update_ts m1 \<and> process_ts m2 = now2
    \<and> delete_ts m2 = delete_ts m1"
  using assms
  by (cases "meta_of dt i")
    (simp_all add: store_chunk_meta_of_chunk_row written_meta_def)

theorem store_chunk_reingest_keeps_hash_and_update_ts_witness:
  "map_of [(''a'', 7::nat)] ''a'' = Some 7
   \<and> (\<exists>m1 m2.
      meta_of (fst (store_chunk (\<lambda>i r. r) (empty_table :: (nat, nat) DataTable)
                 [(''a'', 7)] 1)) ''a'' = Some m1
    \<and> meta_of (fst (store_chunk (\<lambda>i r. r)
                 (fst (store_chunk (\<lambda>i r. r) empty_table [(''a'', 7)] 1))
                 [(''a'', 7)] 2)) ''a'' = Some m2
    \<and> hash m2 = hash m1 \<and> update_ts m2 = update_ts m1 \<and> process_ts m2 = 2
    \<and> delete_ts m2 = delete_ts m1)"
proof -
  have h: "map_of [(''a'', 7::nat)] ''a'' = Some 7" by simp
  from store_chunk_reingest_keeps_hash_and_update_ts [OF h, of "\<lambda>i r. r" empty_table 1 2] h
  show ?thesis by blast
qed

text \<open>
  The sweep of \<open>sync_meta\<close> removes, for every label of \<open>processed_idx\<close> that is in
  none of the chunks, both the data row and the meta row; every other row is kept.
\<close>

theorem sync_meta_deletes_data_and_meta:
  "meta_of (sync_meta dt chunks processed_idx) i =
     (if i \<in> set (df_index (get_metadata dt processed_idx)) - set (foldl index_union [] chunks)
      then None else meta_of dt i)
   \<and> data_of (sync_meta dt chunks processed_idx) i =
     (if i \<in> set (df_index (get_metadata dt processed_idx)) - set (foldl index_union [] chunks)
      then None else data_of dt i)"
  by (simp only: meta_of_sync_meta data_of_sync_meta simp_thms)

section \<open>Properties of the file-directory store\<close>

lemma TableStoreFiledir_init_readonly:
  assumes "TableStoreFiledir_init pattern schema readonly_arg enable_rm_arg = Inr st"
  shows "readonly st \<longleftrightarrow>
      (if CHR ''*'' \<in> set pattern then True else readonly_arg = Some True)"
    and "enable_rm st = enable_rm_arg"
  using assms
  by (auto simp: TableStoreFiledir_init_def
      split: if_splits option.splits sum.splits bool.splits)

text \<open>
  C10, as stated, fails on the code: a store built from a pattern with a \<open>*\<close> and
  the default \<open>enable_rm=False\<close> is read-only, and its \<open>delete_rows\<close> returns without
  raising (before it reaches the assertion); its \<open>insert_rows\<close> returns without raising
  on an empty frame.
\<close>

theorem readonly_store_write_without_failure:
  "TableStoreFiledir_init ''/d/*/{id}.json'' None None False
     = Inr \<lparr>filename_pattern = ''/d/*/{id}.json'', readonly = True, enable_rm = False,
            attrnames = [''id''],
            primary_schema = [\<lparr>col_name = ''id'', col_type = SAString\<rparr>]\<rparr>
   \<and> filedir_delete_rows
        \<lparr>filename_pattern = ''/d/*/{id}.json'', readonly = True, enable_rm = False,
         attrnames = [''id''],
         primary_schema = [\<lparr>col_name = ''id'', col_type = SAString\<rparr>]\<rparr>
        [[''1'']] [''/d/x/1.json'' \<mapsto> (0::nat)]
     = (None, [''/d/x/1.json'' \<mapsto> 0])
   \<and> filedir_insert_rows
        \<lparr>filename_pattern = ''/d/*/{id}.json'', readonly = True, enable_rm = False,
         attrnames = [''id''],
         primary_schema = [\<lparr>col_name = ''id'', col_type = SAString\<rparr>]\<rparr>
        (\<lambda>filepath idxs_values. True) [] [''/d/x/1.json'' \<mapsto> (0::nat)]
     = (None, [''/d/x/1.json'' \<mapsto> 0])"
  by (simp add: TableStoreFiledir_init_def pattern_to_attrnames_def filedir_delete_rows_def
      filedir_insert_rows_def)

text \<open>
  C10, amended.  Let a store be constructed as read-only: the constructor succeeds, and
  either the pattern holds a \<open>*\<close> or \<open>readonly=True\<close> was passed.  Then
  \<open>insert_rows\<close>, \<open>update_rows\<close> and \<open>delete_rows\<close> all leave the files unchanged;
  \<open>insert_rows\<close> and \<open>update_rows\<close> raise \<open>AssertionError\<close> on every non-empty frame;
  \<open>delete_rows\<close> raises \<open>AssertionError\<close> whenever the store was built with
  \<open>enable_rm=True\<close>.  (On an empty frame \<open>insert_rows\<close> returns without raising, and
  with \<open>enable_rm=False\<close> so does \<open>delete_rows\<close>.)
\<close>

theorem readonly_store_rejects_writes:
  assumes "TableStoreFiledir_init pattern schema readonly_arg enable_rm_arg = Inr st"
    and "CHR ''*'' \<in> set pattern \<or> readonly_arg = Some True"
  shows "snd (filedir_insert_rows st key_values_ok df files) = files
    \<and> snd (filedir_update_rows st key_values_ok df files) = files
    \<and> snd (filedir_delete_rows st idx files) = files
    \<and> (df \<noteq> [] \<longrightarrow>
          fst (filedir_insert_rows st key_values_ok df files) = Some AssertionError
        \<and> fst (filedir_update_rows st key_values_ok df files) = Some AssertionError)
    \<and> (enable_rm_arg \<longrightarrow> fst (filedir_delete_rows st idx files) = Some AssertionError)
    \<and> (df = [] \<longrightarrow> fst (filedir_insert_rows st key_values_ok df files) = None)
    \<and> (\<not> enable_rm_arg \<longrightarrow> fst (filedir_delete_rows st idx files) = None)"
proof -
  from TableStoreFiledir_init_readonly [OF assms(1)] assms(2)
  have ro: "readonly st" and rm: "enable_rm st = enable_rm_arg"
    by (auto split: if_splits)
  show ?thesis
    by (simp add: filedir_insert_rows_def filedir_update_rows_def filedir_delete_rows_def ro rm)
qed

theorem readonly_store_rejects_writes_witness:
  "TableStoreFiledir_init ''/d/*/{id}.json'' None None True
     = Inr \<lparr>filename_pattern = ''/d/*/{id}.json'', readonly = True, enable_rm = True,
            attrnames = [''id''],
            primary_schema = [\<lparr>col_name = ''id'', col_type = SAString\<rparr>]\<rparr>
   \<and> CHR ''*'' \<in> set ''/d/*/{id}.json''
   \<and> filedir_insert_rows
        \<lparr>filename_pattern = ''/d/*/{id}.json'', readonly = True, enable_rm = True,
         attrnames = [''id''],
         primary_schema = [\<lparr>col_name = ''id'', col_type = SAString\<rparr>]\<rparr>
        (\<lambda>filepath idxs_values. True) [([''2''], 5)] [''/d/x/1.json'' \<mapsto> (0::nat)]
     = (Some AssertionError, [''/d/x/1.json'' \<mapsto> 0])
   \<and> filedir_update_rows
        \<lparr>filename_pattern = ''/d/*/{id}.json'', readonly = True, enable_rm = True,
         attrnames = [''id''],
         primary_schema = [\<lparr>col_name = ''id'', col_type = SAString\<rparr>]\<rparr>
        (\<lambda>filepath idxs_values. True) [([''2''], 5)] [''/d/x/1.json'' \<mapsto> (0::nat)]
     = (Some AssertionError, [''/d/x/1.json'' \<mapsto> 0])
   \<and> filedir_delete_rows
        \<lparr>filename_pattern = ''/d/*/{id}.json'', readonly = True, enable_rm = True,
         attrnames = [''id''],
         primary_schema = [\<lparr>col_name = ''id'', col_type = SAString\<rparr>]\<rparr>
        [[''1'']] [''/d/x/1.json'' \<mapsto> (0::nat)]
     = (Some AssertionError, [''/d/x/1.json'' \<mapsto> 0])"
proof -
  let ?st = "\<lparr>filename_pattern = ''/d/*/{id}.json'', readonly = True, enable_rm = True,
         attrnames = [''id''],
         primary_schema = [\<lparr>col_name = ''id'', col_type = SAString\<rparr>]\<rparr>"
  have init: "TableStoreFiledir_init ''/d/*/{id}.json'' None None True = Inr ?st"
    by (simp add: TableStoreFiledir_init_def pattern_to_attrnames_def)
  have star: "CHR ''*'' \<in> set ''/d/*/{id}.json'' \<or> (None :: bool option) = Some True"
    by simp
  from readonly_store_rejects_writes [OF init star,
      of "\<lambda>filepath idxs_values. True" "[([''2''], 5)]" "[''/d/x/1.json'' \<mapsto> (0::nat)]"
        "[[''1'']]"]
  have "filedir_insert_rows ?st (\<lambda>filepath idxs_values. True) [([''2''], 5)]
          [''/d/x/1.json'' \<mapsto> (0::nat)] = (Some AssertionError, [''/d/x/1.json'' \<mapsto> 0])"
    and "filedir_update_rows ?st (\<lambda>filepath idxs_values. True) [([''2''], 5)]
          [''/d/x/1.json'' \<mapsto> (0::nat)] = (Some AssertionError, [''/d/x/1.json'' \<mapsto> 0])"
    and "filedir_delete_rows ?st [[''1'']] [''/d/x/1.json'' \<mapsto> (0::nat)]
          = (Some AssertionError, [''/d/x/1.json'' \<mapsto> 0])"
    by (simp_all add: prod_eq_iff)
  with init show ?thesis by simp
qed

text \<open>A store that is not read-only does write: the same frame on the pattern without
  the \<open>*\<close> creates the file.\<close>

lemma writable_store_inserts:
  "filedir_insert_rows
     \<lparr>filename_pattern = ''/d/{id}.json'', readonly = False, enable_rm = False,
      attrnames = [''id''],
      primary_schema = [\<lparr>col_name = ''id'', col_type = SAString\<rparr>]\<rparr>
     (\<lambda>filepath idxs_values. True) [([''2''], 5::nat)] Map.empty
   = (None, [''/d/2.json'' \<mapsto> 5])"
  by (simp add: filedir_insert_rows_def filename_from_idxs_values_def)

section \<open>Properties of the step executor\<close>

lemma get_existing_idx_Nil [simp]: "get_existing_idx dt [] = []"
  by (simp add: get_existing_idx_def)

lemma mark_rows_deleted_Nil [simp]: "mark_rows_deleted meta [] now = meta"
  by (induction meta) (auto simp: mark_rows_deleted_def)

lemma delete_by_idx_Nil [simp]: "delete_by_idx dt [] now = dt"
  by (simp add: delete_by_idx_def)

lemma map_of_mark_rows_deleted:
  "map_of (mark_rows_deleted meta idx now) k =
     (case map_of meta k of
        None \<Rightarrow> None
      | Some m \<Rightarrow> Some (if k \<in> set idx then m\<lparr>delete_ts := Some now\<rparr> else m))"
  by (induction meta) (auto simp: mark_rows_deleted_def)

lemma get_existing_idx_after_delete:
  "get_existing_idx (delete_by_idx dt (get_existing_idx dt idx) now) idx = []"
  by (auto simp: get_existing_idx_def delete_by_idx_def map_of_mark_rows_deleted
      filter_empty_conv split: option.splits)

lemma delete_existing_idem:
  "delete_by_idx (delete_by_idx dt (get_existing_idx dt idx) now)
     (get_existing_idx (delete_by_idx dt (get_existing_idx dt idx) now) idx) now
   = delete_by_idx dt (get_existing_idx dt idx) now"
  by (simp add: get_existing_idx_after_delete)


lemma union_rows_Nil [simp]: "union_rows old [] = old"
  by simp







section \<open>Properties of the batching of the planner\<close>

lemma ceil_div_zero [simp]: "ceil_div 0 n = 0"
  by (cases n) (simp_all add: ceil_div_def)

lemma ceil_div_step:
  assumes "0 < n" "0 < a"
  shows "ceil_div a n = Suc (ceil_div (a - n) n)"
proof (cases "a \<le> n")
  case True
  with assms have "(a + n - 1) div n = 1"
    by (simp add: div_eq_dividend_iff Suc_le_eq div_nat_eqI)
  with True assms show ?thesis by (simp add: ceil_div_def)
next
  case False
  then have "a + n - 1 = (a - n + n - 1) + n" by simp
  then have "(a + n - 1) div n = Suc ((a - n + n - 1) div n)"
    using assms(1) by (metis div_add_self2 not_gr_zero Suc_eq_plus1)
  then show ?thesis by (simp add: ceil_div_def)
qed

lemma chunks_of_Nil [simp]: "chunks_of n [] = []"
  by (simp add: chunks_of.simps)

lemma chunks_of_length:
  "0 < n \<Longrightarrow> length (chunks_of n xs) = ceil_div (length xs) n"
proof (induction n xs rule: chunks_of.induct)
  case (1 n xs)
  show ?case
  proof (cases "xs = []")
    case True
    then show ?thesis by simp
  next
    case False
    with 1 have "length (chunks_of n (drop n xs)) = ceil_div (length xs - n) n"
      by simp
    with False "1.prems" show ?thesis
      by (simp add: chunks_of.simps [of n xs] ceil_div_step)
  qed
qed

lemma chunks_of_sizes:
  "b \<in> set (chunks_of n xs) \<Longrightarrow> length b \<le> n \<and> b \<noteq> []"
proof (induction n xs rule: chunks_of.induct)
  case (1 n xs)
  show ?case
  proof (cases "n = 0 \<or> xs = []")
    case True
    with "1.prems" show ?thesis by (simp add: chunks_of.simps [of n xs])
  next
    case False
    with "1.prems" have "b = take n xs \<or> b \<in> set (chunks_of n (drop n xs))"
      by (simp add: chunks_of.simps [of n xs])
    with False "1.IH" show ?thesis by auto
  qed
qed

lemma chunks_of_concat: "0 < n \<Longrightarrow> concat (chunks_of n xs) = xs"
proof (induction n xs rule: chunks_of.induct)
  case (1 n xs)
  show ?case
  proof (cases "xs = []")
    case True
    then show ?thesis by simp
  next
    case False
    with 1 show ?thesis by (simp add: chunks_of.simps [of n xs])
  qed
qed

text \<open>\<open>get_full_process_ids\<close> merges the step's filters into the run configuration
  and \<open>get_changed_idx_count\<close> merges them once more; the second merge changes
  nothing.\<close>

lemma apply_filters_to_run_config_idem:
  "apply_filters_to_run_config fs (apply_filters_to_run_config fs rc)
     = apply_filters_to_run_config fs rc"
proof (cases fs)
  case None
  then show ?thesis by (simp add: apply_filters_to_run_config_def)
next
  case (Some f)
  show ?thesis
  proof (cases rc)
    case None
    have "filter (\<lambda>(k, v). k \<notin> set (map fst f)) f = []"
      by (force simp: filter_empty_conv)
    with Some None show ?thesis by (simp add: apply_filters_to_run_config_def)
  next
    case (Some r)
    have "filter (\<lambda>(k, v). k \<notin> set (map fst (r @ filter (\<lambda>(k, v). k \<notin> set (map fst r)) f))) f
        = []"
      by (force simp: filter_empty_conv)
    with \<open>fs = Some f\<close> Some show ?thesis by (simp add: apply_filters_to_run_config_def)
  qed
qed

text \<open>
  \<open>get_full_process_ids\<close> returns the pair the claim describes: with no input table
  the count 0 and no batch; otherwise, for the rows of the query and the chunk size in
  force (positive, or the call raises), the count \<open>ceil(rows / chunk_size)\<close>, that many
  batches, and at most \<open>chunk_size\<close> rows in each batch.
\<close>

lemma get_full_process_ids_batches:
  assumes "get_full_process_ids step key_le chunk_size_arg run_config = Inr (n, batches)"
  shows "(step_inputs step = [] \<and> n = 0 \<and> batches = [])
    \<or> (\<exists>rows chunk_size.
          build_changed_idx_sql (step_driver step) (step_transform_keys step) (step_inputs step)
            (step_output_pks step) (step_meta_table step)
            (run_config_filters (apply_filters_to_run_config (step_filters step) run_config))
            key_le = Inr rows
        \<and> chunk_size = (case chunk_size_arg of
                          None \<Rightarrow> step_chunk_size step
                        | Some c \<Rightarrow> if c = 0 then step_chunk_size step else c)
        \<and> 0 < chunk_size
        \<and> n = ceil_div (length rows) chunk_size
        \<and> length batches = n
        \<and> (\<forall>b \<in> set batches. length b \<le> chunk_size))"
proof (cases "step_inputs step = []")
  case True
  with assms show ?thesis by (simp add: get_full_process_ids_def Let_def)
next
  case False
  let ?cs = "case chunk_size_arg of
               None \<Rightarrow> step_chunk_size step
             | Some c \<Rightarrow> if c = 0 then step_chunk_size step else c"
  let ?q = "build_changed_idx_sql (step_driver step) (step_transform_keys step) (step_inputs step)
            (step_output_pks step) (step_meta_table step)
            (run_config_filters (apply_filters_to_run_config (step_filters step) run_config))
            key_le"
  note defs = get_full_process_ids_def get_changed_idx_count_def Let_def
    apply_filters_to_run_config_idem
  from assms False obtain rows where rows: "?q = Inr rows"
    by (cases ?q) (simp_all add: defs)
  from assms False rows have pos: "0 < ?cs"
    by (cases "?cs = 0") (simp_all add: defs)
  from assms False rows pos have n: "n = ceil_div (length rows) ?cs"
    and b: "batches = map (map (\<lambda>row. row @ map (\<lambda>(k, v). Some v)
          (filter (\<lambda>(k, v). k \<notin> set (step_transform_keys step))
             (run_config_filters (apply_filters_to_run_config (step_filters step) run_config)))))
        (chunks_of ?cs rows)"
    by (simp_all add: defs)
  from b have len: "length batches = n"
    by (simp add: n chunks_of_length [OF pos])
  from b have sizes: "\<forall>b \<in> set batches. length b \<le> ?cs"
    by (auto dest: chunks_of_sizes)
  from rows pos n len sizes show ?thesis by blast
qed

text \<open>
  \<open>get_change_list_process_ids\<close> returns first the number of keys, not the number of
  batches; the batches its generator yields are \<open>ceil(keys / chunk_size)\<close> many, with at
  most \<open>chunk_size\<close> keys each.
\<close>

lemma get_change_list_process_ids_batches:
  assumes "get_change_list_process_ids step change_list = Inr (n, Inr batches)"
  shows "\<exists>changes.
      collect_changes (step_transform_keys step) change_list (step_inputs step) = Inr changes
    \<and> n = length (drop_duplicates changes)
    \<and> 0 < step_chunk_size step
    \<and> length batches = ceil_div n (step_chunk_size step)
    \<and> (\<forall>b \<in> set batches. length b \<le> step_chunk_size step)"
proof -
  let ?c = "collect_changes (step_transform_keys step) change_list (step_inputs step)"
  from assms obtain changes where ch: "?c = Inr changes"
    by (cases ?c) (simp_all add: get_change_list_process_ids_def)
  from assms ch have pos: "0 < step_chunk_size step"
    by (cases "step_chunk_size step = 0") (simp_all add: get_change_list_process_ids_def Let_def)
  from assms ch pos have n: "n = length (drop_duplicates changes)"
    and b: "batches = map (\<lambda>i. take (step_chunk_size step)
                (drop (i * step_chunk_size step) (drop_duplicates changes)))
              [0 ..< ceil_div (length (drop_duplicates changes)) (step_chunk_size step)]"
    by (auto simp: get_change_list_process_ids_def Let_def)
  from b n have "length batches = ceil_div n (step_chunk_size step)" by simp
  moreover from b have "\<forall>b \<in> set batches. length b \<le> step_chunk_size step" by auto
  ultimately show ?thesis using ch n pos by blast
qed

text \<open>
  C8.  The claim fails on the code for \<open>get_change_list_process_ids\<close>.  A step with
  chunk size 2 reads the table \<open>''a''\<close>; the change list holds three keys of
  \<open>''a''\<close>.  The function returns the count 3, the number of keys, with two batches
  (of two keys and of one key); \<open>ceil(3 / 2)\<close> is 2.
\<close>

theorem get_change_list_process_ids_returns_key_count:
  "get_change_list_process_ids
      \<lparr>step_transform_keys = [''id''], step_chunk_size = 2, step_filters = None,
       step_inputs = [\<lparr>table_name = ''a'', primary_keys = [''id''], sql_table = []\<rparr>],
       step_output_pks = [[''id'']], step_meta_table = [], step_driver = OtherDriver\<rparr>
      [(''a'', [[(''id'', 1::nat)], [(''id'', 2)], [(''id'', 3)]])]
   = Inr (3, Inr [[[1], [2]], [[3]]])
   \<and> ceil_div 3 2 = 2"
  by (simp add: get_change_list_process_ids_def drop_duplicates_def ceil_div_def Let_def
      upt_rec [of 0] upt_rec [of 1] upt_rec [of 2])

section \<open>Properties of the change-set planner\<close>

text \<open>
  C1.  The claim fails on the code for a step with two input tables on the \<open>sqlite\<close>
  driver.  The tables \<open>''a''\<close> and \<open>''b''\<close> have the primary key \<open>id\<close>.  The meta
  table of \<open>''a''\<close> holds the key 1 with \<open>update_ts = 5\<close>; the meta table of \<open>''b''\<close>
  is empty; the transform-meta table holds the key 1 as a success with
  \<open>process_ts = 3\<close>.  The key is stale: its row is a success and its one matching input
  meta row has \<open>update_ts = 5 > 3\<close>.  On \<open>sqlite\<close> the query returns no row, because
  \<open>max(5, NULL)\<close> is \<open>NULL\<close> there; on every other driver \<open>greatest(5, NULL)\<close> is 5
  and the query returns the key.
\<close>

theorem build_changed_idx_sql_sqlite_misses_stale_key:
  "build_changed_idx_sql Sqlite [''id'']
      [\<lparr>table_name = ''a'', primary_keys = [''id''],
        sql_table = [([1::nat], \<lparr>hash = 0, create_ts = 5::nat, update_ts = 5, process_ts = 5,
                                 delete_ts = None\<rparr>)]\<rparr>,
       \<lparr>table_name = ''b'', primary_keys = [''id''], sql_table = []\<rparr>]
      [[''id'']]
      [([1], \<lparr>tr_process_ts = 3, is_success = True, priority = 0, error = None\<rparr>)]
      [] (\<lambda>a b. True)
   = Inr []
   \<and> build_changed_idx_sql OtherDriver [''id'']
      [\<lparr>table_name = ''a'', primary_keys = [''id''],
        sql_table = [([1::nat], \<lparr>hash = 0, create_ts = 5::nat, update_ts = 5, process_ts = 5,
                                 delete_ts = None\<rparr>)]\<rparr>,
       \<lparr>table_name = ''b'', primary_keys = [''id''], sql_table = []\<rparr>]
      [[''id'']]
      [([1], \<lparr>tr_process_ts = 3, is_success = True, priority = 0, error = None\<rparr>)]
      [] (\<lambda>a b. True)
   = Inr [[Some 1]]
   \<and> stale [''id'']
      \<lparr>table_name = ''a'', primary_keys = [''id''],
        sql_table = [([1::nat], \<lparr>hash = 0, create_ts = 5::nat, update_ts = 5, process_ts = 5,
                                 delete_ts = None\<rparr>)]\<rparr>
      [([1], \<lparr>tr_process_ts = 3, is_success = True, priority = 0, error = None\<rparr>)]
      [Some 1]"
proof (intro conjI)
  show "build_changed_idx_sql Sqlite [''id'']
      [\<lparr>table_name = ''a'', primary_keys = [''id''],
        sql_table = [([1::nat], \<lparr>hash = 0, create_ts = 5::nat, update_ts = 5, process_ts = 5,
                                 delete_ts = None\<rparr>)]\<rparr>,
       \<lparr>table_name = ''b'', primary_keys = [''id''], sql_table = []\<rparr>]
      [[''id'']]
      [([1], \<lparr>tr_process_ts = 3, is_success = True, priority = 0, error = None\<rparr>)]
      [] (\<lambda>a b. True)
   = Inr []"
    by code_simp
  show "build_changed_idx_sql OtherDriver [''id'']
      [\<lparr>table_name = ''a'', primary_keys = [''id''],
        sql_table = [([1::nat], \<lparr>hash = 0, create_ts = 5::nat, update_ts = 5, process_ts = 5,
                                 delete_ts = None\<rparr>)]\<rparr>,
       \<lparr>table_name = ''b'', primary_keys = [''id''], sql_table = []\<rparr>]
      [[''id'']]
      [([1], \<lparr>tr_process_ts = 3, is_success = True, priority = 0, error = None\<rparr>)]
      [] (\<lambda>a b. True)
   = Inr [[Some 1]]"
    by code_simp
  have m: "matching_update_ts [''id'']
      \<lparr>table_name = ''a'', primary_keys = [''id''],
        sql_table = [([1::nat], \<lparr>hash = 0, create_ts = 5::nat, update_ts = 5, process_ts = 5,
                                 delete_ts = None\<rparr>)]\<rparr> [Some 1] = {5}"
    by (auto simp: matching_update_ts_def input_key_def row_col_def)
  show "stale [''id'']
      \<lparr>table_name = ''a'', primary_keys = [''id''],
        sql_table = [([1::nat], \<lparr>hash = 0, create_ts = 5::nat, update_ts = 5, process_ts = 5,
                                 delete_ts = None\<rparr>)]\<rparr>
      [([1], \<lparr>tr_process_ts = 3, is_success = True, priority = 0, error = None\<rparr>)]
      [Some 1]"
    using m by (simp add: stale_def)
qed

subsection \<open>The planner of a step with one input table\<close>

lemma set_insort_row: "set (insort_row le x xs) = insert x (set xs)"
  by (induction xs) auto

lemma set_order_by [simp]: "set (order_by le xs) = set xs"
  by (induction xs) (simp_all add: order_by_def set_insort_row)

lemma length_insort_row: "length (insort_row le x xs) = Suc (length xs)"
  by (induction xs) auto

lemma length_order_by [simp]: "length (order_by le xs) = length xs"
  by (induction xs) (simp_all add: order_by_def length_insort_row)

lemma set_full_outer_join:
  "set (full_outer_join on ls rs) =
     {(Some l, Some r) | l r. l \<in> set ls \<and> r \<in> set rs \<and> on l r}
     \<union> {(Some l, None) | l. l \<in> set ls \<and> (\<forall>r \<in> set rs. \<not> on l r)}
     \<union> {(None, Some r) | r. r \<in> set rs \<and> (\<forall>l \<in> set ls. \<not> on l r)}"
  by (auto simp: full_outer_join_def list_ex_iff)

lemma max_agg_Max:
  assumes "xs \<noteq> []"
  shows "max_agg xs = Some (Max (set xs))"
proof (cases xs)
  case Nil
  with assms show ?thesis by simp
next
  case (Cons a list)
  have "Max (set (a # list)) = fold max list a" by (rule Max.set_eq_fold)
  with Cons show ?thesis by simp
qed

lemma sql_and_list_true:
  "sql_true (sql_and_list ps) \<longleftrightarrow> (\<forall>p \<in> set ps. p = Some True)"
  by (induction ps) (auto simp: sql_and_list_def sql_true_def sql_and_def)

lemma row_col_nth:
  assumes "distinct ks" "length vals = length ks" "i < length ks"
  shows "row_col ks vals (ks ! i) = vals ! i"
proof -
  have "map_of (zip ks vals) (ks ! i) = Some (vals ! i)"
    using assms by (simp add: map_of_zip_nth)
  then show ?thesis by (simp add: row_col_def)
qed

lemma map_row_col_id:
  assumes "distinct ks" "length vals = length ks"
  shows "map (row_col ks vals) ks = vals"
  using assms by (auto simp: list_eq_iff_nth_eq row_col_nth)

lemma sql_eq_true: "sql_eq a b = Some True \<longleftrightarrow> (\<exists>x. a = Some x \<and> b = Some x)"
  by (auto simp: sql_eq_def split: option.splits)

lemma changed_on_iff:
  assumes "distinct ks" "length vals = length ks" "length (fst out) = length ks"
  shows "changed_on ks (vals, ts) out \<longleftrightarrow> vals = map Some (fst out)"
proof -
  obtain ovals t where out: "out = (ovals, t)" by (cases out)
  have "changed_on ks (vals, ts) out \<longleftrightarrow>
      (\<forall>i < length ks. sql_eq (row_col ks vals (ks ! i)) (row_col ks (map Some ovals) (ks ! i))
         = Some True)"
    by (simp add: changed_on_def sql_and_list_true out_col_def out all_set_conv_all_nth)
  also have "\<dots> \<longleftrightarrow> (\<forall>i < length ks. vals ! i = Some (ovals ! i))"
    using assms out by (auto simp: row_col_nth sql_eq_true)
  also have "\<dots> \<longleftrightarrow> vals = map Some ovals"
    using assms out by (auto simp: list_eq_iff_nth_eq)
  finally show ?thesis by (simp add: out)
qed


lemma make_agg_of_agg_single [simp]:
  "make_agg_of_agg driver tks ctk [cte] = Inr cte"
  by (simp add: make_agg_of_agg_def)

lemma build_changed_idx_sql_single:
  assumes "build_changed_idx_sql driver tks [dt] output_pks tr_tbl filters key_le = Inr rows"
  shows "tks \<noteq> []"
    and "set tks \<subseteq> set (primary_keys dt)"
    and "set rows = changed_select tks `
           {c \<in> set (full_outer_join (changed_on tks)
                        (snd (make_agg_cte tks filters dt)) tr_tbl).
              sql_true (changed_where c)}"
proof -
  from assms show ne: "tks \<noteq> []"
    by (auto simp: build_changed_idx_sql_def)
  obtain inp_keys inp_rows where cte: "make_agg_cte tks filters dt = (inp_keys, inp_rows)"
    by (cases "make_agg_cte tks filters dt")
  then have keys: "inp_keys = filter (\<lambda>k. k \<in> set (primary_keys dt)) tks"
    by (simp add: make_agg_cte_def Let_def)
  from assms ne cte have nokey: "\<not> list_ex (\<lambda>key. key \<notin> set inp_keys) tks"
    by (auto simp: build_changed_idx_sql_def Let_def split: sum.splits if_splits)
  then show "set tks \<subseteq> set (primary_keys dt)"
    by (auto simp: keys list_ex_iff)
  from assms ne cte nokey
  have "rows = map snd (order_by (order_le key_le)
            (map (\<lambda>c. (out_priority (snd c), changed_select tks c))
               (filter (\<lambda>c. sql_true (changed_where c))
                  (full_outer_join (changed_on tks) inp_rows tr_tbl))))"
    by (auto simp: build_changed_idx_sql_def Let_def split: sum.splits if_splits)
  then show "set rows = changed_select tks `
           {c \<in> set (full_outer_join (changed_on tks)
                        (snd (make_agg_cte tks filters dt)) tr_tbl).
              sql_true (changed_where c)}"
    by (simp add: cte image_image)
qed


lemma sql_apply_runconfig_filter_Nil [simp]: "sql_apply_runconfig_filter pks [] rows = rows"
  by (simp add: sql_apply_runconfig_filter_def)

lemma make_agg_cte_rows:
  assumes "tks \<noteq> []" "set tks \<subseteq> set (primary_keys dt)"
  shows "set (snd (make_agg_cte tks [] dt)) =
     {(g, Some (Max (matching_update_ts tks dt g))) | g.
        g \<in> (\<lambda>(vals, m). input_key tks dt vals) ` set (sql_table dt)}"
proof -
  let ?key_of = "\<lambda>(vals, m). map (row_col (primary_keys dt) (map Some vals)) tks"
  let ?ts = "\<lambda>g. map (\<lambda>(vals, m). update_ts m) (filter (\<lambda>r. ?key_of r = g) (sql_table dt))"
  from assms(2) have keys: "filter (\<lambda>k. k \<in> set (primary_keys dt)) tks = tks"
    by (auto simp: filter_id_conv)
  have rows: "snd (make_agg_cte tks [] dt) =
      map (\<lambda>g. (g, max_agg (?ts g))) (remdups (map ?key_of (sql_table dt)))"
    using assms(1) by (simp add: make_agg_cte_def Let_def keys)
  have set_ts: "set (?ts g) = matching_update_ts tks dt g" for g
    by (auto simp: matching_update_ts_def input_key_def image_iff)
  have agg: "max_agg (?ts g) = Some (Max (matching_update_ts tks dt g))"
    if "g \<in> ?key_of ` set (sql_table dt)" for g
  proof -
    from that obtain r where "r \<in> set (sql_table dt)" "?key_of r = g" by auto
    then have "filter (\<lambda>r. ?key_of r = g) (sql_table dt) \<noteq> []"
      unfolding filter_empty_conv by blast
    then have "?ts g \<noteq> []" by simp
    from max_agg_Max [OF this] show ?thesis by (simp only: set_ts)
  qed
  have key: "(\<lambda>(vals, m). input_key tks dt vals) = ?key_of"
    by (simp add: input_key_def)
  show ?thesis
    unfolding rows key using agg by (auto simp: image_iff) force+
qed

lemma agg_row_length:
  assumes "tks \<noteq> []" "set tks \<subseteq> set (primary_keys dt)"
    and "(g, ts) \<in> set (snd (make_agg_cte tks [] dt))"
  shows "length g = length tks"
  using assms(3) unfolding make_agg_cte_rows [OF assms(1,2)]
  by (auto simp: input_key_def)

lemma where_matched:
  "sql_true (changed_where (Some (g, Some mx), Some (ov, t))) \<longleftrightarrow>
     (is_success t \<and> mx > tr_process_ts t) \<or> \<not> is_success t"
  by (cases "is_success t"; cases "mx > tr_process_ts t")
    (simp_all add: changed_where_def sql_true_def sql_or_def sql_and_def sql_eq_def sql_ne_def
      sql_gt_def sql_is_null_def out_is_success_def out_process_ts_def part_ts_def)

lemma where_left: "sql_true (changed_where (Some (g, ts), None))"
  by (simp add: changed_where_def sql_true_def sql_or_def sql_and_def sql_eq_def sql_ne_def
      sql_gt_def sql_is_null_def out_is_success_def out_process_ts_def part_ts_def)

lemma where_right:
  "sql_true (changed_where (None, Some (ov, t))) \<longleftrightarrow> \<not> is_success t"
  by (cases "is_success t")
    (simp_all add: changed_where_def sql_true_def sql_or_def sql_and_def sql_eq_def sql_ne_def
      sql_gt_def sql_is_null_def out_is_success_def out_process_ts_def part_ts_def)

lemma coalesce_first: "coalesce [a, None] = a"
  by (cases a) simp_all

lemma coalesce_single: "coalesce [a] = a"
  by (cases a) simp_all

lemma select_left:
  assumes "distinct tks" "length g = length tks"
  shows "changed_select tks (Some (g, ts), None) = g"
proof -
  have "changed_select tks (Some (g, ts), None) = map (row_col tks g) tks"
    by (simp add: changed_select_def part_col_def out_col_def coalesce_first)
  with map_row_col_id [OF assms] show ?thesis by simp
qed

lemma select_matched:
  assumes "distinct tks" "length ov = length tks"
  shows "changed_select tks (Some (map Some ov, ts), Some (ov, t)) = map Some ov"
proof -
  have len: "length (map Some ov) = length tks" using assms(2) by simp
  have "coalesce [row_col tks (map Some ov) key, b] = row_col tks (map Some ov) key"
    if "key \<in> set tks" for key b
  proof -
    from that obtain i where i: "i < length tks" "key = tks ! i"
      by (auto simp: in_set_conv_nth)
    with row_col_nth [OF assms(1) len i(1)] assms(2) show ?thesis by simp
  qed
  then have "changed_select tks (Some (map Some ov, ts), Some (ov, t))
      = map (row_col tks (map Some ov)) tks"
    by (simp add: changed_select_def part_col_def)
  with map_row_col_id [OF assms(1) len] show ?thesis by simp
qed

lemma select_right:
  assumes "distinct tks" "length ov = length tks"
  shows "changed_select tks (None, Some (ov, t)) = map Some ov"
proof -
  have len: "length (map Some ov) = length tks" using assms(2) by simp
  have "changed_select tks (None, Some (ov, t)) = map (row_col tks (map Some ov)) tks"
    by (simp add: changed_select_def part_col_def out_col_def coalesce_single)
  with map_row_col_id [OF assms(1) len] show ?thesis by simp
qed


lemma transform_lookup:
  assumes "distinct (map fst tr_tbl)"
  shows "map_of (map (\<lambda>(vals, t). (map Some vals, t)) tr_tbl) k = Some t
     \<longleftrightarrow> (\<exists>ov. (ov, t) \<in> set tr_tbl \<and> map Some ov = k)"
proof -
  let ?T = "map (\<lambda>(vals, t). (map Some vals, t)) tr_tbl"
  have "map fst ?T = map (map Some) (map fst tr_tbl)"
    by (simp add: comp_def case_prod_unfold)
  moreover have "inj_on (map Some) (set (map fst tr_tbl))"
    by (auto intro!: inj_onI simp: inj_map_eq_map)
  ultimately have "distinct (map fst ?T)"
    using assms by (simp add: distinct_map del: map_map)
  then have "map_of ?T k = Some t \<longleftrightarrow> (k, t) \<in> set ?T"
    by simp
  also have "\<dots> \<longleftrightarrow> (\<exists>ov. (ov, t) \<in> set tr_tbl \<and> map Some ov = k)"
    by (auto simp: image_iff) force
  finally show ?thesis .
qed

lemma transform_lookup_None:
  "map_of (map (\<lambda>(vals, t). (map Some vals, t)) tr_tbl) k = None
     \<longleftrightarrow> (\<forall>(ov, t) \<in> set tr_tbl. map Some ov \<noteq> k)"
  by (auto simp: map_of_eq_None_iff image_iff case_prod_unfold)

lemma matching_update_ts_empty:
  "matching_update_ts tks dt k = {} \<longleftrightarrow>
     k \<notin> (\<lambda>(vals, m). input_key tks dt vals) ` set (sql_table dt)"
  by (auto simp: matching_update_ts_def image_iff)


text \<open>
  For a step with one input table and no filter, on either driver: whenever the query can
  be built, the set of tuples it returns is the set of the candidate tuples that satisfy
  the stale predicate.  The transform keys are distinct, and the transform-meta table
  holds one row per key, with one value per transform key.
\<close>

lemma build_changed_idx_sql_one_input_stale:
  assumes q: "build_changed_idx_sql driver tks [dt] output_pks tr_tbl [] key_le = Inr rows"
    and d: "distinct tks"
    and len: "\<forall>(ov, t) \<in> set tr_tbl. length ov = length tks"
    and pk: "distinct (map fst tr_tbl)"
  shows "set rows = {k \<in> candidate_keys tks dt tr_tbl. stale tks dt tr_tbl k}"
proof -
  note ne = build_changed_idx_sql_single(1) [OF q]
  note sub = build_changed_idx_sql_single(2) [OF q]
  note rows = build_changed_idx_sql_single(3) [OF q]
  let ?I = "(\<lambda>(vals, m). input_key tks dt vals) ` set (sql_table dt)"
  let ?A = "snd (make_agg_cte tks [] dt)"
  let ?M = "matching_update_ts tks dt"
  let ?J = "set (full_outer_join (changed_on tks) ?A tr_tbl)"
  let ?look = "map_of (map (\<lambda>(vals, t). (map Some vals, t)) tr_tbl)"
  note A = make_agg_cte_rows [OF ne sub]
  have lenA: "length g = length tks" if "(g, ts) \<in> set ?A" for g ts
    using agg_row_length [OF ne sub that] .
  have lenT: "length ov = length tks" if "(ov, t) \<in> set tr_tbl" for ov t
    using len that by auto
  have on: "changed_on tks (g, ts) (ov, t) \<longleftrightarrow> g = map Some ov"
    if "(g, ts) \<in> set ?A" "(ov, t) \<in> set tr_tbl" for g ts ov t
    using changed_on_iff [OF d lenA [OF that(1)], of "(ov, t)" ts] lenT [OF that(2)] by simp
  have inA: "(g, Some (Max (?M g))) \<in> set ?A" if "g \<in> ?I" for g
    using that unfolding A by blast
  have cand: "candidate_keys tks dt tr_tbl = ?I \<union> (\<lambda>(vals, t). map Some vals) ` set tr_tbl"
    by (simp add: candidate_keys_def)
  show ?thesis
  proof (intro set_eqI iffI)
    fix k
    assume "k \<in> set rows"
    then obtain c where c: "c \<in> ?J" "sql_true (changed_where c)" "k = changed_select tks c"
      unfolding rows by auto
    from c(1) consider
        (matched) a r where "c = (Some a, Some r)" "a \<in> set ?A" "r \<in> set tr_tbl"
          "changed_on tks a r"
      | (left) a where "c = (Some a, None)" "a \<in> set ?A"
          "\<forall>r \<in> set tr_tbl. \<not> changed_on tks a r"
      | (right) r where "c = (None, Some r)" "r \<in> set tr_tbl"
      unfolding set_full_outer_join by blast
    then show "k \<in> {k \<in> candidate_keys tks dt tr_tbl. stale tks dt tr_tbl k}"
    proof cases
      case matched
      obtain g ts where a: "a = (g, ts)" by (cases a)
      obtain ov t where r: "r = (ov, t)" by (cases r)
      from matched(2) a have gI: "g \<in> ?I" and ts: "ts = Some (Max (?M g))"
        unfolding A by auto
      from on [of g ts ov t] matched a r have g: "g = map Some ov" by simp
      from c(3) matched(1) a r g select_matched [OF d lenT, of ov t ts] matched(3)
      have k: "k = g" by simp
      from transform_lookup [OF pk, of g t] matched(3) r g have look: "?look g = Some t"
        by auto
      from gI have Mne: "?M g \<noteq> {}" by (simp add: matching_update_ts_empty)
      from c(2) matched(1) a r ts where_matched [of g "Max (?M g)" ov t]
      have "(is_success t \<and> Max (?M g) > tr_process_ts t) \<or> \<not> is_success t" by simp
      with look Mne have "stale tks dt tr_tbl g" by (auto simp: stale_def)
      with gI k show ?thesis by (simp add: cand)
    next
      case left
      obtain g ts where a: "a = (g, ts)" by (cases a)
      from left(2) a have gI: "g \<in> ?I" unfolding A by auto
      from c(3) left(1) a select_left [OF d lenA, of g ts ts] left(2)
      have k: "k = g" by simp
      have "map Some ov \<noteq> g" if r: "(ov, t) \<in> set tr_tbl" for ov t
      proof
        assume eq: "map Some ov = g"
        from left(3) r a have "\<not> changed_on tks (g, ts) (ov, t)" by auto
        with on [of g ts ov t] left(2) a r eq show False by simp
      qed
      then have "\<forall>(ov, t) \<in> set tr_tbl. map Some ov \<noteq> g" by auto
      then have "?look g = None" by (simp only: transform_lookup_None)
      then have "stale tks dt tr_tbl g" by (simp add: stale_def)
      with gI k show ?thesis by (simp add: cand)
    next
      case right
      obtain ov t where r: "r = (ov, t)" by (cases r)
      from c(3) right(1) r select_right [OF d lenT, of ov t] right(2)
      have k: "k = map Some ov" by simp
      from transform_lookup [OF pk, of k t] right(2) r k have look: "?look k = Some t"
        by auto
      from c(2) right(1) r where_right [of ov t] have "\<not> is_success t" by simp
      with look have "stale tks dt tr_tbl k" by (simp add: stale_def)
      moreover from right(2) r k have "k \<in> (\<lambda>(vals, t). map Some vals) ` set tr_tbl"
        by force
      ultimately show ?thesis by (simp add: cand)
    qed
  next
    fix k
    assume "k \<in> {k \<in> candidate_keys tks dt tr_tbl. stale tks dt tr_tbl k}"
    then have kc: "k \<in> ?I \<or> k \<in> (\<lambda>(vals, t). map Some vals) ` set tr_tbl"
      and st: "stale tks dt tr_tbl k"
      by (simp_all add: cand)
    show "k \<in> set rows"
    proof (cases "?look k")
      case None
      then have noT: "\<forall>(ov, t) \<in> set tr_tbl. map Some ov \<noteq> k"
        by (simp only: transform_lookup_None)
      with kc have kI: "k \<in> ?I" by auto
      let ?a = "(k, Some (Max (?M k)))"
      from inA [OF kI] have a: "?a \<in> set ?A" .
      have "\<forall>r \<in> set tr_tbl. \<not> changed_on tks ?a r"
      proof
        fix r assume r: "r \<in> set tr_tbl"
        obtain ov t where rr: "r = (ov, t)" by (cases r)
        from noT r rr have "map Some ov \<noteq> k" by auto
        with on [OF a, of ov t] r rr show "\<not> changed_on tks ?a r" by auto
      qed
      with a have "(Some ?a, None) \<in> ?J"
        unfolding set_full_outer_join by blast
      moreover have "sql_true (changed_where (Some ?a, None))" by (rule where_left)
      moreover have "changed_select tks (Some ?a, None) = k"
        using select_left [OF d lenA [OF a]] .
      ultimately show ?thesis unfolding rows by force
    next
      case (Some t)
      with transform_lookup [OF pk, of k t] obtain ov
        where r: "(ov, t) \<in> set tr_tbl" and k: "map Some ov = k" by auto
      from st Some have st': "(is_success t \<and> ?M k \<noteq> {} \<and> Max (?M k) > tr_process_ts t)
          \<or> \<not> is_success t"
        by (simp add: stale_def)
      show ?thesis
      proof (cases "k \<in> ?I")
        case True
        let ?a = "(k, Some (Max (?M k)))"
        from inA [OF True] have a: "?a \<in> set ?A" .
        from on [OF a r] k have "changed_on tks ?a (ov, t)" by simp
        with a r have "(Some ?a, Some (ov, t)) \<in> ?J"
          unfolding set_full_outer_join by blast
        moreover from st' have "sql_true (changed_where (Some ?a, Some (ov, t)))"
          unfolding where_matched by blast
        moreover have "changed_select tks (Some ?a, Some (ov, t)) = k"
          using select_matched [OF d lenT [OF r], of "Some (Max (?M k))" t] k by simp
        ultimately show ?thesis unfolding rows by force
      next
        case False
        then have "?M k = {}" by (simp add: matching_update_ts_empty)
        with st' have fail: "\<not> is_success t" by auto
        have "\<forall>a \<in> set ?A. \<not> changed_on tks a (ov, t)"
        proof
          fix a assume a: "a \<in> set ?A"
          obtain g ts where aa: "a = (g, ts)" by (cases a)
          from a aa have "g \<in> ?I" unfolding A by blast
          with False k have "g \<noteq> map Some ov" by blast
          with on [of g ts ov t] a aa r show "\<not> changed_on tks a (ov, t)" by simp
        qed
        with r have "(None, Some (ov, t)) \<in> ?J"
          unfolding set_full_outer_join by blast
        moreover from fail have "sql_true (changed_where (None, Some (ov, t)))"
          by (simp add: where_right)
        moreover have "changed_select tks (None, Some (ov, t)) = k"
          using select_right [OF d lenT [OF r], of t] k by simp
        ultimately show ?thesis unfolding rows by force
      qed
    qed
  qed
qed


text \<open>An instance: the keys 1 (updated after it was processed), 3 (never processed) and
  4 (failed) are returned, the keys 2 and 5 (processed, nothing newer) are not.\<close>

lemma build_changed_idx_sql_one_input_stale_example:
  "{k \<in> candidate_keys [''id'']
          \<lparr>table_name = ''a'', primary_keys = [''id''],
           sql_table =
             [([1::nat], \<lparr>hash = 0, create_ts = 0::nat, update_ts = 5, process_ts = 5,
                           delete_ts = None\<rparr>),
              ([2], \<lparr>hash = 0, create_ts = 0, update_ts = 3, process_ts = 3, delete_ts = None\<rparr>),
              ([3], \<lparr>hash = 0, create_ts = 0, update_ts = 1, process_ts = 1,
                      delete_ts = None\<rparr>)]\<rparr>
          [([1], \<lparr>tr_process_ts = 3, is_success = True, priority = 0, error = None\<rparr>),
           ([2], \<lparr>tr_process_ts = 3, is_success = True, priority = 0, error = None\<rparr>),
           ([4], \<lparr>tr_process_ts = 1, is_success = False, priority = 0, error = None\<rparr>),
           ([5], \<lparr>tr_process_ts = 1, is_success = True, priority = 0, error = None\<rparr>)].
      stale [''id'']
          \<lparr>table_name = ''a'', primary_keys = [''id''],
           sql_table =
             [([1::nat], \<lparr>hash = 0, create_ts = 0::nat, update_ts = 5, process_ts = 5,
                           delete_ts = None\<rparr>),
              ([2], \<lparr>hash = 0, create_ts = 0, update_ts = 3, process_ts = 3, delete_ts = None\<rparr>),
              ([3], \<lparr>hash = 0, create_ts = 0, update_ts = 1, process_ts = 1,
                      delete_ts = None\<rparr>)]\<rparr>
          [([1], \<lparr>tr_process_ts = 3, is_success = True, priority = 0, error = None\<rparr>),
           ([2], \<lparr>tr_process_ts = 3, is_success = True, priority = 0, error = None\<rparr>),
           ([4], \<lparr>tr_process_ts = 1, is_success = False, priority = 0, error = None\<rparr>),
           ([5], \<lparr>tr_process_ts = 1, is_success = True, priority = 0, error = None\<rparr>)] k}
   = {[Some 1], [Some 4], [Some 3]}"
proof -
  let ?dt = "\<lparr>table_name = ''a'', primary_keys = [''id''],
           sql_table =
             [([1::nat], \<lparr>hash = 0, create_ts = 0::nat, update_ts = 5, process_ts = 5,
                           delete_ts = None\<rparr>),
              ([2], \<lparr>hash = 0, create_ts = 0, update_ts = 3, process_ts = 3, delete_ts = None\<rparr>),
              ([3], \<lparr>hash = 0, create_ts = 0, update_ts = 1, process_ts = 1,
                      delete_ts = None\<rparr>)]\<rparr>"
  let ?tr = "[([1::nat], \<lparr>tr_process_ts = 3::nat, is_success = True, priority = 0, error = None\<rparr>),
           ([2], \<lparr>tr_process_ts = 3, is_success = True, priority = 0, error = None\<rparr>),
           ([4], \<lparr>tr_process_ts = 1, is_success = False, priority = 0, error = None\<rparr>),
           ([5], \<lparr>tr_process_ts = 1, is_success = True, priority = 0, error = None\<rparr>)]"
  have q: "build_changed_idx_sql Sqlite [''id''] [?dt] [[''id'']] ?tr [] (\<lambda>a b. True)
      = Inr [[Some 1], [Some 4], [Some 3]]"
    by code_simp
  have d: "distinct [''id'']" by simp
  have len: "\<forall>(ov, t) \<in> set ?tr. length ov = length [''id'']" by simp
  have pk: "distinct (map fst ?tr)" by simp
  from build_changed_idx_sql_one_input_stale [OF q d len pk] show ?thesis by simp
qed

end
